theory Spec2Isabelle
  imports Complex_Main
begin

section \<open>Numbers and plain objects\<close>

text \<open>
  The program is JavaScript (\<^verbatim>\<open>src/js/actors.js\<close>). Its numbers are IEEE
  doubles. The model reads them as exact rationals, and every arithmetic
  expression below is the source's expression over that exact arithmetic; NaN
  and the infinities are outside the model. Where the rounding of doubles
  decides a property, in \<^verbatim>\<open>moveOutside\<close>, the Box methods are given a second
  time with every operation rounded (section ``Box methods in double
  precision''), and the two are shown to agree on whole numbers up to 2^50.
\<close>

type_synonym number = rat

text \<open>
  An object with \<^verbatim>\<open>x\<close> and \<^verbatim>\<open>y\<close> properties: the \<^verbatim>\<open>moved\<close> objects that
  \<^verbatim>\<open>move\<close>, \<^verbatim>\<open>update\<close> and \<^verbatim>\<open>moveOutside\<close> return, and the position part
  of every Box.
\<close>

record Coords =
  x :: number
  y :: number

section \<open>Box\<close>

record Box = Coords +
  width :: number
  height :: number

definition xC :: "'a Box_scheme \<Rightarrow> number" where
  "xC this = x this + width this / 2"

definition yC :: "'a Box_scheme \<Rightarrow> number" where
  "yC this = y this + height this / 2"

definition overlapsX :: "'a Box_scheme \<Rightarrow> 'b Box_scheme \<Rightarrow> bool" where
  "overlapsX this otherBox \<longleftrightarrow>
     x this + width this \<ge> x otherBox \<and> x otherBox + width otherBox \<ge> x this"

definition overlapsY :: "'a Box_scheme \<Rightarrow> 'b Box_scheme \<Rightarrow> bool" where
  "overlapsY this otherBox \<longleftrightarrow>
     y this + height this \<ge> y otherBox \<and> y otherBox + height otherBox \<ge> y this"

definition overlaps :: "'a Box_scheme \<Rightarrow> 'b Box_scheme \<Rightarrow> bool" where
  "overlaps this otherBox \<longleftrightarrow> overlapsX this otherBox \<and> overlapsY this otherBox"

section \<open>Moving an Actor outside of a Box\<close>

text \<open>
  \<^verbatim>\<open>moveOutsideX\<close>, \<^verbatim>\<open>moveOutsideY\<close> and \<^verbatim>\<open>moveOutside\<close> read and write only
  the Box part of the Actor, so they are defined on every extension of Box.
  Each returns the updated object and the distance moved. Here the arithmetic
  is exact and the other Box is a value, a Box that is not the Actor itself;
  the section ``Box methods in double precision'' gives the same methods with
  rounding and with a reference for the other Box, and \<open>moveOutside_d_exact\<close>
  shows that they return what these return when coordinates and sizes are
  whole numbers up to 2^50.
\<close>

definition moveOutsideX :: "'a Box_scheme \<Rightarrow> 'b Box_scheme \<Rightarrow> 'a Box_scheme \<times> number" where
  "moveOutsideX this other =
     (if overlaps this other then
        (if x this + width this / 2 < x other + width other / 2 then
           (let movedTo = x other - width this - 1
            in (this\<lparr>x := movedTo\<rparr>, movedTo - x this))
         else
           (let movedTo = x other + width other + 1
            in (this\<lparr>x := movedTo\<rparr>, movedTo - x this)))
      else (this, 0))"

definition moveOutsideY :: "'a Box_scheme \<Rightarrow> 'b Box_scheme \<Rightarrow> 'a Box_scheme \<times> number" where
  "moveOutsideY this other =
     (if overlaps this other then
        (if y this + height this / 2 \<le> y other + height other / 2 then
           (let movedTo = y other - height this - 1
            in (this\<lparr>y := movedTo\<rparr>, movedTo - y this))
         else
           (let movedTo = y other + height other + 1
            in (this\<lparr>y := movedTo\<rparr>, movedTo - y this)))
      else (this, 0))"

text \<open>The two depths \<^verbatim>\<open>moveOutside\<close> computes first (lines 1413-1414, its local
  variables \<^verbatim>\<open>overlapsX\<close> and \<^verbatim>\<open>overlapsY\<close>).\<close>

definition overlapDepthX :: "'a Box_scheme \<Rightarrow> 'b Box_scheme \<Rightarrow> number" where
  "overlapDepthX this other =
     min (x this + width this - x other) (x other + width other - x this)"

definition overlapDepthY :: "'a Box_scheme \<Rightarrow> 'b Box_scheme \<Rightarrow> number" where
  "overlapDepthY this other =
     min (y this + height this - y other) (y other + height other - y this)"

definition moveOutside :: "'a Box_scheme \<Rightarrow> 'b Box_scheme \<Rightarrow> 'a Box_scheme \<times> Coords" where
  "moveOutside this other =
     (let overlapsX = overlapDepthX this other;
          overlapsY = overlapDepthY this other
      in if overlapsX \<le> overlapsY then
           (let (this1, mx) = moveOutsideX this other;
                (this2, my) = moveOutsideY this1 other
            in (this2, \<lparr>x = mx, y = my\<rparr>))
         else
           (let (this1, my) = moveOutsideY this other;
                (this2, mx) = moveOutsideX this1 other
            in (this2, \<lparr>x = mx, y = my\<rparr>)))"

section \<open>The ambient globals\<close>

text \<open>
  The methods read global state: \<^verbatim>\<open>world\<close>, \<^verbatim>\<open>canvas\<close>, \<^verbatim>\<open>mouse.coords\<close>,
  \<^verbatim>\<open>App.timer.lastDelta\<close>, \<^verbatim>\<open>Date.now()\<close> and \<^verbatim>\<open>keys\<close>. They are passed
  explicitly as an environment. \<^verbatim>\<open>keys\<close> may have been deleted
  (\<^verbatim>\<open>typeof keys == 'undefined'\<close>), hence the option.
\<close>

record Keys =
  keys_left :: "string list"
  keys_right :: "string list"
  keys_up :: "string list"
  keys_down :: "string list"

record Env =
  world_width :: number
  world_height :: number
  world_xOffset :: number
  world_yOffset :: number
  canvas_width :: number
  canvas_height :: number
  mouse_coords :: Coords
  lastDelta :: number
  now :: number
  keys :: "Keys option"

text \<open>
  Modelled from the spec: \<^verbatim>\<open>App.Utils.anyIn\<close> is called by \<^verbatim>\<open>move\<close> and
  \<^verbatim>\<open>release\<close> but is defined in a file that is not under src/. The spec speaks
  of a set of currently pressed direction tokens; \<^verbatim>\<open>anyIn(search, array)\<close> holds
  when some token of \<^verbatim>\<open>search\<close> occurs in \<^verbatim>\<open>array\<close>.
\<close>

definition anyIn :: "string list \<Rightarrow> string list \<Rightarrow> bool" where
  "anyIn search array = list_ex (\<lambda>s. s \<in> set array) search"

text \<open>
  Modelled from the spec: \<^verbatim>\<open>App.Utils.almostEqual\<close> is called by \<^verbatim>\<open>standingOn\<close>
  and \<^verbatim>\<open>_collideSolidBox\<close> but is defined in a file that is not under src/. The
  spec says the bottom edge is "within a small epsilon" of the top edge, read
  here as a distance of at most the epsilon.
\<close>

definition almostEqual :: "number \<Rightarrow> number \<Rightarrow> number \<Rightarrow> bool" where
  "almostEqual a b e \<longleftrightarrow> \<bar>a - b\<bar> \<le> e"

text \<open>JavaScript's \<^verbatim>\<open>a || b\<close> on an optional numeric argument: an argument that
  was not passed, or is 0, is falsy.\<close>

definition js_or :: "number option \<Rightarrow> number \<Rightarrow> number" where
  "js_or a b = (case a of None \<Rightarrow> b | Some n \<Rightarrow> if n = 0 then b else n)"

text \<open>\<^verbatim>\<open>Box.init\<close> (lines 24-32) for the class Box itself, whose default width and
  height are 80. Drawing is not modelled.\<close>

definition Box_init :: "Env \<Rightarrow> number option \<Rightarrow> number option \<Rightarrow> number option \<Rightarrow>
    number option \<Rightarrow> Box" where
  "Box_init env ax ay aw ah =
     \<lparr>x = js_or ax (of_int \<lfloor>(world_width env - 80) / 2\<rfloor>),
      y = js_or ay (of_int \<lfloor>(world_height env - 80) / 2\<rfloor>),
      width = js_or aw 80,
      height = js_or ah 80\<rparr>"

section \<open>Actor\<close>

text \<open>
  The properties an Actor class fixes on its prototype (a subclass such as Player
  overrides some of them), and the per-object variables.
\<close>

record ActorClass =
  DEFAULT_WIDTH :: number
  DEFAULT_HEIGHT :: number
  MOVEAMOUNT :: number
  GRAVITY :: bool
  G_CONST :: number
  JUMP_VEL :: number
  JUMP_DELAY :: number
  AIR_CONTROL :: number
  JUMP_RELEASE :: bool
  MULTI_JUMP :: int
  CONTINUOUS_MOVEMENT :: bool
  STAY_IN_WORLD :: bool

definition Actor_class :: ActorClass where
  "Actor_class =
     \<lparr>DEFAULT_WIDTH = 80, DEFAULT_HEIGHT = 80, MOVEAMOUNT = 400, GRAVITY = False,
      G_CONST = 1500, JUMP_VEL = 800, JUMP_DELAY = 250, AIR_CONTROL = 1/4,
      JUMP_RELEASE = False, MULTI_JUMP = 0, CONTINUOUS_MOVEMENT = False,
      STAY_IN_WORLD = True\<rparr>"

definition Player_class :: ActorClass where
  "Player_class = Actor_class\<lparr>JUMP_RELEASE := True\<rparr>"

record Actor = Box +
  speed :: number
  lastJump :: number
  lastDirection :: "string list"
  lastLooked :: "string list"
  jumpDirection_right :: bool
  jumpDirection_left :: bool
  jumpKeyDown :: bool
  numJumps :: int
  inAir :: bool
  fallLeft :: "bool option"
  isBeingDragged :: bool

text \<open>\<^verbatim>\<open>Box.init\<close> followed by \<^verbatim>\<open>Actor.init\<close>; the other variables keep the
  values of the prototype. Drawing is not modelled.\<close>

definition init :: "ActorClass \<Rightarrow> Env \<Rightarrow> number option \<Rightarrow> number option \<Rightarrow>
    number option \<Rightarrow> number option \<Rightarrow> Actor" where
  "init cls env ax ay aw ah =
     \<lparr>x = js_or ax (of_int \<lfloor>(world_width env - DEFAULT_WIDTH cls) / 2\<rfloor>),
      y = js_or ay (of_int \<lfloor>(world_height env - DEFAULT_HEIGHT cls) / 2\<rfloor>),
      width = js_or aw (DEFAULT_WIDTH cls),
      height = js_or ah (DEFAULT_HEIGHT cls),
      speed = 0, lastJump = 0, lastDirection = [], lastLooked = [],
      jumpDirection_right = False, jumpDirection_left = False,
      jumpKeyDown = False, numJumps = 0, inAir = False, fallLeft = None,
      isBeingDragged = False\<rparr>"

definition isInAir :: "Actor \<Rightarrow> bool" where
  "isInAir this = inAir this"

definition isJumping :: "Actor \<Rightarrow> bool" where
  "isJumping this \<longleftrightarrow> numJumps this > 0"

definition isFalling :: "Actor \<Rightarrow> bool" where
  "isFalling this \<longleftrightarrow> isInAir this \<and> numJumps this = 0"

definition startFalling :: "Actor \<Rightarrow> Actor" where
  "startFalling this =
     (let this1 =
        (case fallLeft this of
           None \<Rightarrow> this
         | Some fl \<Rightarrow>
             if \<not> inAir this
             then this\<lparr>jumpDirection_left := fl, jumpDirection_right := \<not> fl\<rparr>
             else this)
      in this1\<lparr>inAir := True\<rparr>)"

definition stopFalling :: "ActorClass \<Rightarrow> Env \<Rightarrow> Actor \<Rightarrow> Actor" where
  "stopFalling cls env this =
     (let this1 =
        (if y this + height this + speed this * lastDelta env > world_height env \<and>
            STAY_IN_WORLD cls
         then this\<lparr>y := world_height env - height this\<rparr> else this);
          this2 = (if speed this1 > 0 then this1\<lparr>speed := 0\<rparr> else this1)
      in this2\<lparr>numJumps := 0, inAir := False\<rparr>)"

subsection \<open>move\<close>

text \<open>
  \<^verbatim>\<open>Actor.move\<close> (lines 1283-1396) in the order of the source: the left/right
  block, the up/down block and the bookkeeping of \<^verbatim>\<open>lastLooked\<close>. Each block
  takes and returns the Actor, the \<^verbatim>\<open>moved\<close> object and the local flags it
  sets; \<^verbatim>\<open>direction\<close> is the list of pressed keys, and a direction that was
  not passed takes the branch of the empty list.
\<close>

definition move_leftRight :: "ActorClass \<Rightarrow> Env \<Rightarrow> Keys \<Rightarrow> string list \<Rightarrow>
    Actor \<times> Coords \<Rightarrow> (Actor \<times> Coords) \<times> bool \<times> bool \<times> bool" where
  "move_leftRight cls env ks direction s =
     (let this = fst s; moved = snd s;
          moveAmount = MOVEAMOUNT cls * lastDelta env
      in if anyIn (keys_left ks) direction \<and>
            (x this - moveAmount \<ge> 0 \<or> \<not> STAY_IN_WORLD cls) then
           (let this1 = this\<lparr>fallLeft := Some True\<rparr>
            in if GRAVITY cls \<and> isInAir this1 then
                 (if jumpDirection_right this1 \<or> \<not> jumpDirection_left this1 then
                    ((this1\<lparr>x := x this1 - moveAmount * AIR_CONTROL cls,
                             jumpDirection_right := False, jumpDirection_left := False\<rparr>,
                      moved\<lparr>x := x moved - moveAmount * AIR_CONTROL cls\<rparr>),
                     True, False, True)
                  else ((this1, moved), True, False, True))
               else
                 ((this1\<lparr>x := x this1 - moveAmount\<rparr>,
                   moved\<lparr>x := x moved - moveAmount\<rparr>), True, False, True))
         else if anyIn (keys_right ks) direction \<and>
            (x this + width this + moveAmount \<le> world_width env \<or> \<not> STAY_IN_WORLD cls) then
           (let this1 = this\<lparr>fallLeft := Some False\<rparr>
            in if GRAVITY cls \<and> isInAir this1 then
                 (if jumpDirection_left this1 \<or> \<not> jumpDirection_right this1 then
                    ((this1\<lparr>x := x this1 + moveAmount * AIR_CONTROL cls,
                             jumpDirection_right := False, jumpDirection_left := False\<rparr>,
                      moved\<lparr>x := x moved + moveAmount * AIR_CONTROL cls\<rparr>),
                     False, True, True)
                  else ((this1, moved), False, True, True))
               else
                 ((this1\<lparr>x := x this1 + moveAmount\<rparr>,
                   moved\<lparr>x := x moved + moveAmount\<rparr>), False, True, True))
         else ((this, moved), False, False, False))"

text \<open>The jump itself (lines 1359-1368), taken when the Actor is on the ground or
  has jumps left.\<close>

definition move_jump :: "ActorClass \<Rightarrow> Env \<Rightarrow> bool \<Rightarrow> bool \<Rightarrow> Actor \<Rightarrow> Actor" where
  "move_jump cls env left right this =
     (if now env - lastJump this > JUMP_DELAY cls \<and>
         (\<not> JUMP_RELEASE cls \<or> \<not> jumpKeyDown this)
      then this\<lparr>speed := - JUMP_VEL cls, lastJump := now env,
                jumpDirection_right := right, jumpDirection_left := left,
                numJumps := numJumps this + 1, inAir := True\<rparr>
      else this)"

definition move_upDown :: "ActorClass \<Rightarrow> Env \<Rightarrow> Keys \<Rightarrow> string list \<Rightarrow>
    bool \<Rightarrow> bool \<Rightarrow> bool \<Rightarrow> Actor \<times> Coords \<Rightarrow> (Actor \<times> Coords) \<times> bool" where
  "move_upDown cls env ks direction left right looked s =
     (let this = fst s; moved = snd s;
          moveAmount = MOVEAMOUNT cls * lastDelta env
      in if anyIn (keys_up ks) direction \<and>
            (y this - moveAmount \<ge> 0 \<or> \<not> STAY_IN_WORLD cls) then
           (if \<not> GRAVITY cls then
              ((this\<lparr>y := y this - moveAmount, jumpKeyDown := True\<rparr>,
                moved\<lparr>y := y moved - moveAmount\<rparr>), True)
            else if \<not> isInAir this \<or> MULTI_JUMP cls > numJumps this \<or>
                    MULTI_JUMP cls = - 1 then
              (((move_jump cls env left right this)\<lparr>jumpKeyDown := True\<rparr>, moved), looked)
            else ((this\<lparr>jumpKeyDown := True\<rparr>, moved), looked))
         else if anyIn (keys_down ks) direction \<and>
            (y this + height this + moveAmount \<le> world_height env \<or> \<not> STAY_IN_WORLD cls) then
           (if \<not> isInAir this \<or> \<not> GRAVITY cls then
              ((this\<lparr>y := y this + moveAmount\<rparr>,
                moved\<lparr>y := y moved + moveAmount\<rparr>), True)
            else ((this, moved), looked))
         else ((this, moved), looked))"

definition move_look :: "ActorClass \<Rightarrow> Keys \<Rightarrow> string list \<Rightarrow> bool \<Rightarrow> Actor \<Rightarrow> Actor" where
  "move_look cls ks direction looked this =
     (if looked then
        (if GRAVITY cls then
           this\<lparr>lastLooked :=
             filter (\<lambda>d. d \<in> set (keys_left ks) \<or> d \<in> set (keys_right ks)) direction\<rparr>
         else this\<lparr>lastLooked := direction\<rparr>)
      else this)"

definition move :: "ActorClass \<Rightarrow> Env \<Rightarrow> Actor \<Rightarrow> string list \<Rightarrow> Actor \<times> Coords" where
  "move cls env this direction0 =
     (let moved = \<lparr>x = 0, y = 0\<rparr>
      in case keys env of
           None \<Rightarrow> (this, moved)
         | Some ks \<Rightarrow>
             if direction0 = [] \<and> \<not> CONTINUOUS_MOVEMENT cls then (this, moved)
             else
               (let direction = (if direction0 = [] then lastLooked this else direction0);
                    this1 = this\<lparr>lastDirection := direction\<rparr>;
                    (s2, left, right, looked2) =
                       move_leftRight cls env ks direction (this1, moved);
                    (s3, looked3) =
                       move_upDown cls env ks direction left right looked2 s2
                in (move_look cls ks direction looked3 (fst s3), snd s3)))"

text \<open>The guards on the path to the jump, in the order the source tests them:
  inside the up/down block (lines 1349-1351, 1356-1358 and 1360-1361), and from
  the entry of \<^verbatim>\<open>move\<close> (lines 1294 and 1297-1305).\<close>

definition upGuards :: "ActorClass \<Rightarrow> Env \<Rightarrow> Keys \<Rightarrow> string list \<Rightarrow> Actor \<Rightarrow> bool" where
  "upGuards cls env ks direction this \<longleftrightarrow>
     anyIn (keys_up ks) direction \<and>
     (y this - MOVEAMOUNT cls * lastDelta env \<ge> 0 \<or> \<not> STAY_IN_WORLD cls) \<and>
     GRAVITY cls \<and>
     (\<not> isInAir this \<or> MULTI_JUMP cls > numJumps this \<or> MULTI_JUMP cls = - 1) \<and>
     now env - lastJump this > JUMP_DELAY cls \<and>
     (\<not> JUMP_RELEASE cls \<or> \<not> jumpKeyDown this)"

definition jumpGuards :: "ActorClass \<Rightarrow> Env \<Rightarrow> Actor \<Rightarrow> string list \<Rightarrow> bool" where
  "jumpGuards cls env this direction0 =
     (case keys env of
        None \<Rightarrow> False
      | Some ks \<Rightarrow>
          (direction0 \<noteq> [] \<or> CONTINUOUS_MOVEMENT cls) \<and>
          upGuards cls env ks (if direction0 = [] then lastLooked this else direction0) this)"

subsection \<open>update\<close>

text \<open>\<^verbatim>\<open>Actor.update\<close> (lines 1227-1267). \<^verbatim>\<open>updateAnimation\<close> only selects a
  sprite sequence and is not modelled.\<close>

definition update_air :: "ActorClass \<Rightarrow> Env \<Rightarrow> number \<Rightarrow> Actor \<times> Coords \<Rightarrow> Actor \<times> Coords" where
  "update_air cls env moveStep s =
     (let moveAmount = MOVEAMOUNT cls * lastDelta env;
          this1 = (fst s)\<lparr>y := y (fst s) + moveStep\<rparr>;
          moved1 = (snd s)\<lparr>y := y (snd s) + moveStep\<rparr>
      in if jumpDirection_left this1 \<and>
            (x this1 - moveAmount \<ge> 0 \<or> \<not> STAY_IN_WORLD cls) then
           (this1\<lparr>x := x this1 - moveAmount\<rparr>, moved1\<lparr>x := x moved1 - moveAmount\<rparr>)
         else if jumpDirection_right this1 \<and>
            (x this1 + width this1 + moveAmount \<le> world_width env \<or> \<not> STAY_IN_WORLD cls) then
           (this1\<lparr>x := x this1 + moveAmount\<rparr>, moved1\<lparr>x := x moved1 + moveAmount\<rparr>)
         else (this1, moved1))"

definition update :: "ActorClass \<Rightarrow> Env \<Rightarrow> Actor \<Rightarrow> string list \<Rightarrow> Actor \<times> Coords" where
  "update cls env this direction =
     (if isBeingDragged this then
        (let mcx = x (mouse_coords env) + world_xOffset env - width this / 2;
             mcy = y (mouse_coords env) + world_yOffset env - height this / 2;
             moved = \<lparr>x = mcx - x this, y = mcy - y this\<rparr>
         in (this\<lparr>x := mcx, y := mcy\<rparr>, moved))
      else
        (let (this1, moved1) = move cls env this direction
         in if GRAVITY cls then
              (let moveStep = speed this1 * lastDelta env;
                   this2 = this1\<lparr>speed := speed this1 + G_CONST cls * lastDelta env\<rparr>;
                   (this3, moved3) =
                     (if isInAir this2 \<and>
                         (y this2 + height this2 + moveStep \<le> world_height env \<or>
                          \<not> STAY_IN_WORLD cls)
                      then update_air cls env moveStep (this2, moved1)
                      else (stopFalling cls env this2, moved1))
               in (if x moved3 = 0 then this3\<lparr>fallLeft := None\<rparr> else this3, moved3))
            else (this1, moved1)))"

definition release :: "ActorClass \<Rightarrow> Env \<Rightarrow> Actor \<Rightarrow> string list \<Rightarrow> Actor" where
  "release cls env this releasedDirections =
     (case keys env of
        None \<Rightarrow> this
      | Some ks \<Rightarrow>
          if GRAVITY cls \<and> anyIn (keys_up ks) releasedDirections
          then this\<lparr>jumpKeyDown := False\<rparr> else this)"

section \<open>TileMap\<close>

text \<open>
  A cell of the grid holds \<^verbatim>\<open>null\<close> (a blank tile), an object, or nothing at
  all: a hole of \<^verbatim>\<open>new Array(h)\<close> reads as \<^verbatim>\<open>undefined\<close>, as does an index
  past the end of a row.
\<close>

datatype 'a cell = Null | Undefined | Item 'a

datatype error = TypeError

text \<open>
  The constructor keeps two references to the grid: the property
  \<^verbatim>\<open>this.grid\<close> and its own variable \<^verbatim>\<open>grid\<close>, which the methods defined
  inside the constructor still see. Both start as the same array
  (\<^verbatim>\<open>this.grid = grid\<close>, line 565), and \<^verbatim>\<open>clearAll\<close> assigns a new array to
  the first only. The arrays live in a store, by address.
\<close>

record 'a TileMap =
  arrays :: "nat \<Rightarrow> 'a cell list list"
  this_grid :: nat
  grid :: nat
  startCoords :: "number \<times> number"
  cellSize :: "number \<times> number"

text \<open>The state the constructor leaves for a grid of already resolved cells.\<close>

definition newTileMap :: "'a cell list list \<Rightarrow> number \<times> number \<Rightarrow> number \<times> number \<Rightarrow> 'a TileMap" where
  "newTileMap g sc cs =
     \<lparr>arrays = (\<lambda>_. [])(0 := g), this_grid = 0, grid = 0, startCoords = sc, cellSize = cs\<rparr>"

text \<open>
  The constructor (lines 522-605) for a grid given as an array of rows whose
  entries are \<^verbatim>\<open>null\<close> (here False) or the class Box (here True), with no map
  and a cell size in the options: the start coordinates are computed (line 538),
  and a Box is made for every entry that is not \<^verbatim>\<open>null\<close> (lines 585 and 598).
\<close>

definition TileMap_init :: "Env \<Rightarrow> bool list list \<Rightarrow> number \<times> number \<Rightarrow> Box TileMap" where
  "TileMap_init env g cs =
     (let cw = fst cs; ch = snd cs;
          sx = 0; sy = world_height env - ch * of_nat (length g);
          tile = (\<lambda>i j. Box_init env (Some (sx + of_nat j * cw)) (Some (sy + of_nat i * ch))
                    (Some cw) (Some ch))
      in newTileMap
           (map (\<lambda>(i, row). map (\<lambda>(j, c). if c then Item (tile i j) else Null)
                                 (enumerate 0 row))
                (enumerate 0 g))
           (sx, sy) cs)"

definition js_get :: "'a cell list \<Rightarrow> nat \<Rightarrow> 'a cell" where
  "js_get row j = (if j < length row then row ! j else Undefined)"

definition js_set :: "'a cell list \<Rightarrow> nat \<Rightarrow> 'a cell \<Rightarrow> 'a cell list" where
  "js_set row j v =
     (if j < length row then row[j := v]
      else row @ replicate (j - length row) Undefined @ [v])"

definition notNull :: "'a cell \<Rightarrow> bool" where
  "notNull c = (case c of Null \<Rightarrow> False | _ \<Rightarrow> True)"

definition getRows :: "'a TileMap \<Rightarrow> nat" where
  "getRows tm = length (arrays tm (this_grid tm))"

definition getCols :: "'a TileMap \<Rightarrow> nat" where
  "getCols tm =
     (let g = arrays tm (this_grid tm) in if length g > 0 then length (g ! 0) else 0)"

definition getCell :: "'a TileMap \<Rightarrow> nat \<Rightarrow> nat \<Rightarrow> 'a cell" where
  "getCell tm row col =
     (let g = arrays tm (this_grid tm)
      in if row < length g then js_get (g ! row) col else Undefined)"

definition setCell :: "'a TileMap \<Rightarrow> nat \<Rightarrow> nat \<Rightarrow> 'a cell \<Rightarrow> 'a TileMap" where
  "setCell tm row col obj =
     (let g = arrays tm (this_grid tm)
      in if row < length g \<and> js_get (g ! row) col \<noteq> Undefined
         then tm\<lparr>arrays := (arrays tm)(this_grid tm := g[row := (g ! row)[col := obj]])\<rparr>
         else tm)"

definition clearCell :: "'a TileMap \<Rightarrow> nat \<Rightarrow> nat \<Rightarrow> 'a TileMap" where
  "clearCell tm row col = setCell tm row col Null"

definition getAll :: "'a TileMap \<Rightarrow> 'a cell list" where
  "getAll tm =
     (let g = arrays tm (this_grid tm);
          w = length g;
          h = (if w > 0 then length (g ! 0) else 0)
      in concat (map (\<lambda>i. filter notNull (map (js_get (g ! i)) [0..<h])) [0..<w]))"

text \<open>
  \<^verbatim>\<open>clearAll\<close> (lines 704-713): the new rows are assigned to \<^verbatim>\<open>this.grid\<close>,
  the \<^verbatim>\<open>null\<close>s are written through the constructor's variable
  \<^verbatim>\<open>grid\<close>. Writing to a row that \<^verbatim>\<open>grid\<close> does not have is a TypeError.
\<close>

definition clearAll_write :: "nat \<Rightarrow> nat \<Rightarrow> error + 'a cell list list \<Rightarrow> error + 'a cell list list" where
  "clearAll_write i j r =
     (case r of
        Inl e \<Rightarrow> Inl e
      | Inr g \<Rightarrow> if i < length g then Inr (g[i := js_set (g ! i) j Null]) else Inl TypeError)"

definition clearAll :: "'a TileMap \<Rightarrow> error + 'a TileMap" where
  "clearAll tm =
     (let g = arrays tm (this_grid tm);
          w = length g;
          h = (if w > 0 then length (g ! 0) else 0);
          fresh = Suc (max (this_grid tm) (grid tm));
          tm1 = tm\<lparr>arrays := (arrays tm)(fresh := replicate w (replicate h Undefined)),
                    this_grid := fresh\<rparr>
      in case fold (\<lambda>i. fold (clearAll_write i) [0..<h]) [0..<w] (Inr (arrays tm1 (grid tm1))) of
           Inl e \<Rightarrow> Inl e
         | Inr g' \<Rightarrow> Inr (tm1\<lparr>arrays := (arrays tm1)(grid tm1 := g')\<rparr>))"

text \<open>\<^verbatim>\<open>_getCellCoordsInRect\<close> (lines 765-776): startCol, startRow, endCol,
  endRow. An argument that was not passed defaults to the viewport.\<close>

definition getCellCoordsInRect :: "Env \<Rightarrow> 'a TileMap \<Rightarrow> number option \<Rightarrow> number option \<Rightarrow>
    number option \<Rightarrow> number option \<Rightarrow> int \<times> int \<times> int \<times> int" where
  "getCellCoordsInRect env tm wx0 wy0 tw0 th0 =
     (let wx = (case wx0 of None \<Rightarrow> world_xOffset env | Some v \<Rightarrow> v);
          wy = (case wy0 of None \<Rightarrow> world_yOffset env | Some v \<Rightarrow> v);
          tw = (case tw0 of None \<Rightarrow> canvas_width env | Some v \<Rightarrow> v);
          th = (case th0 of None \<Rightarrow> canvas_height env | Some v \<Rightarrow> v);
          x = fst (startCoords tm); y = snd (startCoords tm);
          cw = fst (cellSize tm); cy = snd (cellSize tm);
          sx = (wx - x) / cw; sy = (wy - y) / cy;
          sxe = (wx + tw - x) / cw; sye = (y - wy + th) / cy
      in (\<lfloor>sx\<rfloor>, \<lfloor>sy\<rfloor>, \<lceil>sxe\<rceil>, \<lceil>sye\<rceil>))"

definition getCellsInRect :: "Env \<Rightarrow> 'a TileMap \<Rightarrow> number option \<Rightarrow> number option \<Rightarrow>
    number option \<Rightarrow> number option \<Rightarrow> 'a cell list" where
  "getCellsInRect env tm ax ay aw ah =
     (let (r0, r1, r2, r3) = getCellCoordsInRect env tm ax ay aw ah;
          startRow = nat (min (int (getRows tm)) (max 0 r1));
          endRow = nat (min (int (getRows tm)) (max 0 r3));
          startCol = nat (min (int (getCols tm)) (max 0 r0));
          endCol = nat (min (int (getCols tm)) (max 0 r2));
          g = arrays tm (this_grid tm)
      in concat (map (\<lambda>i. filter notNull (map (js_get (g ! i)) [startCol..<endCol]))
                     [startRow..<endRow]))"

text \<open>The rectangle the constructor gives the tile of a cell (line 585, with the
  cell size as its size).\<close>

definition tileRect :: "'a TileMap \<Rightarrow> nat \<Rightarrow> nat \<Rightarrow> Box" where
  "tileRect tm i j =
     \<lparr>x = fst (startCoords tm) + of_nat j * fst (cellSize tm),
      y = snd (startCoords tm) + of_nat i * snd (cellSize tm),
      width = fst (cellSize tm), height = snd (cellSize tm)\<rparr>"

section \<open>Obstacles\<close>

text \<open>
  \<^verbatim>\<open>collideSolid\<close> and \<^verbatim>\<open>isMoveAllowed\<close> dispatch on the class of their
  argument: a Box, a Collection (its array of Boxes) or a TileMap of Boxes.
\<close>

datatype Obstacle = IsBox Box | IsCollection "Box list" | IsTileMap "Box TileMap"

definition items_of :: "Obstacle \<Rightarrow> Box cell list" where
  "items_of collideWith =
     (case collideWith of
        IsBox b \<Rightarrow> [Item b]
      | IsCollection items \<Rightarrow> map Item items
      | IsTileMap tm \<Rightarrow> getAll tm)"

section \<open>Collision with solids\<close>

text \<open>\<^verbatim>\<open>standingOn\<close> for a single Box (lines 1601-1602).\<close>

definition standingOn :: "'a Box_scheme \<Rightarrow> 'b Box_scheme \<Rightarrow> bool" where
  "standingOn this box \<longleftrightarrow>
     overlapsX this box \<and> almostEqual (y this + height this) (y box) 1"

text \<open>\<^verbatim>\<open>_collideSolidBox\<close> (lines 1660-1700): the Actor, then the
  \<^verbatim>\<open>falling\<close> and \<^verbatim>\<open>collided\<close> properties of the result.\<close>

definition collideSolidBox :: "ActorClass \<Rightarrow> Env \<Rightarrow> Actor \<Rightarrow> 'm Coords_scheme \<Rightarrow>
    Box \<Rightarrow> Actor \<times> bool \<times> bool" where
  "collideSolidBox cls env this moved collideWith =
     (let collided = overlaps this collideWith;
          this1 = (if collided then fst (moveOutside this collideWith) else this)
      in if GRAVITY cls then
           (let this2 = this1\<lparr>x := x this1 - x moved\<rparr>;
                falling = \<not> standingOn this2 collideWith;
                this3 = (if falling then this2 else stopFalling cls env this2);
                this4 = this3\<lparr>x := x this3 + x moved\<rparr>;
                this5 =
                  (if falling \<and> collided then
                     (if almostEqual (y this4) (y collideWith + height collideWith) 1 then
                        (if speed this4 < 0 then this4\<lparr>speed := 0\<rparr> else this4)
                      else this4\<lparr>fallLeft := None, jumpDirection_left := False,
                                 jumpDirection_right := False\<rparr>)
                   else this4)
            in (this5, falling, collided))
         else (this1, True, collided))"

text \<open>The loop of \<^verbatim>\<open>collideSolid\<close> over the items of a Collection or TileMap.
  An item that is not an object (\<^verbatim>\<open>undefined\<close>) makes \<^verbatim>\<open>overlaps\<close> throw; the
  error is returned with the Actor as the items before it left it.\<close>

fun collideSolidItems :: "ActorClass \<Rightarrow> Env \<Rightarrow> 'm Coords_scheme \<Rightarrow> Box cell list \<Rightarrow>
    Actor \<times> bool \<times> bool \<Rightarrow> error \<times> Actor + Actor \<times> bool \<times> bool" where
  "collideSolidItems cls env moved [] s = Inr s"
| "collideSolidItems cls env moved (Item b # items) (this, falling, collided) =
     (let (this1, f, c) = collideSolidBox cls env this moved b
      in collideSolidItems cls env moved items (this1, falling \<and> f, collided \<or> c))"
| "collideSolidItems cls env moved (_ # items) (this, falling, collided) = Inl (TypeError, this)"

definition collideSolid :: "ActorClass \<Rightarrow> Env \<Rightarrow> Actor \<Rightarrow> 'm Coords_scheme \<Rightarrow>
    Obstacle \<Rightarrow> error \<times> Actor + Actor \<times> bool" where
  "collideSolid cls env this moved collideWith =
     (let falling0 = (GRAVITY cls \<and>
            (y this + height this \<noteq> world_height env \<or> \<not> STAY_IN_WORLD cls));
          r = (case collideWith of
                 IsBox b \<Rightarrow> Inr (collideSolidBox cls env this moved b)
               | _ \<Rightarrow> collideSolidItems cls env moved (items_of collideWith)
                        (this, falling0, False))
      in case r of
           Inl e \<Rightarrow> Inl e
         | Inr (this1, falling, collided) \<Rightarrow>
             Inr (if falling then startFalling this1 else this1, collided))"


text \<open>
  The Actor as the loop of \<^verbatim>\<open>collideSolid\<close> leaves it after the given items, and
  whether the loop, started from the given Actor, finds one of the items
  overlapping the Actor when its turn comes (the \<^verbatim>\<open>collided\<close> of the loop).
\<close>

definition afterItems :: "ActorClass \<Rightarrow> Env \<Rightarrow> 'm Coords_scheme \<Rightarrow> Box cell list \<Rightarrow>
    Actor \<Rightarrow> Actor" where
  "afterItems cls env moved items this =
     (case collideSolidItems cls env moved items (this, True, False) of
        Inl (e, this1) \<Rightarrow> this1
      | Inr (this1, falling, collided) \<Rightarrow> this1)"

definition collidesAmong :: "ActorClass \<Rightarrow> Env \<Rightarrow> 'm Coords_scheme \<Rightarrow> Box cell list \<Rightarrow>
    Actor \<Rightarrow> bool" where
  "collidesAmong cls env moved items this =
     (case collideSolidItems cls env moved items (this, True, False) of
        Inl e \<Rightarrow> False
      | Inr (this1, falling, collided) \<Rightarrow> collided)"

section \<open>isMoveAllowed\<close>

text \<open>\<^verbatim>\<open>isMoveAllowed\<close> (lines 1721-1775) returns a boolean and, with
  \<^verbatim>\<open>fix\<close>, changes the Actor and the \<^verbatim>\<open>moved\<close> object it was given; the model
  returns all three.\<close>

definition isMoveAllowedBox :: "Actor \<Rightarrow> Coords \<Rightarrow> Box \<Rightarrow> bool \<Rightarrow> bool \<times> Actor \<times> Coords" where
  "isMoveAllowedBox this moved collideWith fix =
     (if x moved \<noteq> 0 \<and>
         x this - x collideWith - width collideWith \<ge> min (x moved) 0 \<and>
         x this + width this - x collideWith \<le> max (x moved) 0 \<and>
         y this - y collideWith - height collideWith \<le> min (y moved) 0 \<and>
         y this + height this - y collideWith \<ge> max (y moved) 0
      then
        (if fix then
           (let moved1 = moved\<lparr>y := y moved / 2\<rparr>;
                this1 = this\<lparr>y := y this - y moved1\<rparr>;
                this2 = this1\<lparr>x := (if x moved1 > 0 then x collideWith - width this1
                                       else x collideWith + width collideWith)\<rparr>
            in (False, this2, moved1\<lparr>x := x this2 - x this1\<rparr>))
         else (False, this, moved))
      else if y moved \<noteq> 0 \<and>
         y this - y collideWith - height collideWith \<ge> min (y moved) 0 \<and>
         y this + height this - y collideWith \<le> max (y moved) 0 \<and>
         x this - x collideWith - width collideWith \<le> min (x moved) 0 \<and>
         x this + width this - x collideWith \<ge> max (x moved) 0
      then
        (if fix then
           (let moved1 = moved\<lparr>x := x moved / 2\<rparr>;
                this1 = this\<lparr>x := x this - x moved1\<rparr>;
                this2 = this1\<lparr>y := (if y moved1 > 0 then y collideWith - height this1
                                       else y collideWith + height collideWith)\<rparr>
            in (False, this2, moved1\<lparr>y := y this2 - y this1\<rparr>))
         else (False, this, moved))
      else (True, this, moved))"

text \<open>The loop over the items of a Collection or TileMap stops at the first item
  that refuses the move. An item that is neither a Box, a Collection nor a
  TileMap takes no branch and the call returns true.\<close>

fun isMoveAllowedItems :: "Actor \<Rightarrow> Coords \<Rightarrow> Box cell list \<Rightarrow> bool \<Rightarrow> bool \<times> Actor \<times> Coords" where
  "isMoveAllowedItems this moved [] fix = (True, this, moved)"
| "isMoveAllowedItems this moved (Item b # items) fix =
     (let (allowed, this1, moved1) = isMoveAllowedBox this moved b fix
      in if \<not> allowed then (False, this1, moved1)
         else isMoveAllowedItems this1 moved1 items fix)"
| "isMoveAllowedItems this moved (_ # items) fix = isMoveAllowedItems this moved items fix"

definition isMoveAllowed :: "Actor \<Rightarrow> Coords \<Rightarrow> Obstacle \<Rightarrow> bool \<Rightarrow> bool \<times> Actor \<times> Coords" where
  "isMoveAllowed this moved collideWith fix =
     (case collideWith of
        IsBox b \<Rightarrow> isMoveAllowedBox this moved b fix
      | _ \<Rightarrow> isMoveAllowedItems this moved (items_of collideWith) fix)"

section \<open>Box methods in double precision\<close>

text \<open>
  A JavaScript number is an IEEE 754 double: a multiple of a power of two with
  a significand of at most 53 bits, the power no smaller than 2^-1074. Every
  operation returns the double nearest to the exact result, a tie going to the
  even significand. \<open>rne\<close> rounds to the nearest integer, ties to even; \<open>expo\<close>
  is the exponent of a number other than 0, the integer \<open>e\<close> with
  2^e \<le> |v| < 2^(e+1), computed from the bit lengths of numerator and
  denominator (\<open>ilog2\<close>); \<open>rnd\<close> rounds to the nearest double, with the
  spacing 2^(e-52) of the doubles around \<open>v\<close>, and 2^-1074 below 2^-1022.
  Overflow to an infinity (from 2^1024 on) is not modelled.
\<close>

definition rne :: "rat \<Rightarrow> int" where
  "rne v =
     (let n = \<lfloor>v\<rfloor>; r = v - of_int n
      in if r < 1/2 then n else if 1/2 < r then n + 1 else if even n then n else n + 1)"

function ilog2 :: "int \<Rightarrow> int" where
  "ilog2 n = (if n \<le> 1 then 0 else 1 + ilog2 (n div 2))"
  by pat_completeness auto
termination
  by (relation "measure nat") auto

declare ilog2.simps [simp del]

definition expo :: "rat \<Rightarrow> int" where
  "expo v =
     (let (n, d) = quotient_of \<bar>v\<bar>;
          k = ilog2 n - ilog2 d
      in if 2 powi k \<le> \<bar>v\<bar> then k else k - 1)"

definition rnd :: "rat \<Rightarrow> rat" where
  "rnd v =
     (if v = 0 then 0
      else (let q = 2 powi (max (expo v) (- 1022) - 52) in of_int (rne (v / q)) * q))"

text \<open>
  The argument of \<^verbatim>\<open>moveOutside\<close> is a reference: the Box it names may be the
  Actor itself (\<^verbatim>\<open>other === this\<close>), and then a read of \<^verbatim>\<open>other\<close> sees the
  Actor's coordinates as they are when the read happens. Each method reads all
  it needs of \<^verbatim>\<open>other\<close> before it writes to \<^verbatim>\<open>this\<close>, so the reference is
  resolved once per call.
\<close>

datatype boxRef = Itself | Another Box

definition deref :: "'a Box_scheme \<Rightarrow> boxRef \<Rightarrow> Box" where
  "deref this ref =
     (case ref of
        Itself \<Rightarrow> \<lparr>x = x this, y = y this, width = width this, height = height this\<rparr>
      | Another b \<Rightarrow> b)"

text \<open>\<^verbatim>\<open>overlapsX\<close>, \<^verbatim>\<open>overlapsY\<close>, \<^verbatim>\<open>overlaps\<close> (lines 169-189),
  \<^verbatim>\<open>moveOutsideX\<close>, \<^verbatim>\<open>moveOutsideY\<close> (lines 1440-1489) and \<^verbatim>\<open>moveOutside\<close>
  (lines 1412-1427) with the result of every \<^verbatim>\<open>+\<close>, \<^verbatim>\<open>-\<close> and \<^verbatim>\<open>/\<close> rounded, in
  the order JavaScript evaluates them.\<close>

definition overlapsX_d :: "'a Box_scheme \<Rightarrow> 'b Box_scheme \<Rightarrow> bool" where
  "overlapsX_d this otherBox \<longleftrightarrow>
     rnd (x this + width this) \<ge> x otherBox \<and> rnd (x otherBox + width otherBox) \<ge> x this"

definition overlapsY_d :: "'a Box_scheme \<Rightarrow> 'b Box_scheme \<Rightarrow> bool" where
  "overlapsY_d this otherBox \<longleftrightarrow>
     rnd (y this + height this) \<ge> y otherBox \<and> rnd (y otherBox + height otherBox) \<ge> y this"

definition overlaps_d :: "'a Box_scheme \<Rightarrow> 'b Box_scheme \<Rightarrow> bool" where
  "overlaps_d this otherBox \<longleftrightarrow> overlapsX_d this otherBox \<and> overlapsY_d this otherBox"

definition moveOutsideX_d :: "'a Box_scheme \<Rightarrow> boxRef \<Rightarrow> 'a Box_scheme \<times> number" where
  "moveOutsideX_d this ref =
     (let other = deref this ref
      in if overlaps_d this other then
           (if rnd (x this + rnd (width this / 2)) < rnd (x other + rnd (width other / 2)) then
              (let movedTo = rnd (rnd (x other - width this) - 1)
               in (this\<lparr>x := movedTo\<rparr>, rnd (movedTo - x this)))
            else
              (let movedTo = rnd (rnd (x other + width other) + 1)
               in (this\<lparr>x := movedTo\<rparr>, rnd (movedTo - x this))))
         else (this, 0))"

definition moveOutsideY_d :: "'a Box_scheme \<Rightarrow> boxRef \<Rightarrow> 'a Box_scheme \<times> number" where
  "moveOutsideY_d this ref =
     (let other = deref this ref
      in if overlaps_d this other then
           (if rnd (y this + rnd (height this / 2)) \<le> rnd (y other + rnd (height other / 2)) then
              (let movedTo = rnd (rnd (y other - height this) - 1)
               in (this\<lparr>y := movedTo\<rparr>, rnd (movedTo - y this)))
            else
              (let movedTo = rnd (rnd (y other + height other) + 1)
               in (this\<lparr>y := movedTo\<rparr>, rnd (movedTo - y this))))
         else (this, 0))"

definition overlapDepthX_d :: "'a Box_scheme \<Rightarrow> 'b Box_scheme \<Rightarrow> number" where
  "overlapDepthX_d this other =
     min (rnd (rnd (x this + width this) - x other)) (rnd (rnd (x other + width other) - x this))"

definition overlapDepthY_d :: "'a Box_scheme \<Rightarrow> 'b Box_scheme \<Rightarrow> number" where
  "overlapDepthY_d this other =
     min (rnd (rnd (y this + height this) - y other)) (rnd (rnd (y other + height other) - y this))"

definition moveOutside_d :: "'a Box_scheme \<Rightarrow> boxRef \<Rightarrow> 'a Box_scheme \<times> Coords" where
  "moveOutside_d this ref =
     (let other = deref this ref;
          overlapsX = overlapDepthX_d this other;
          overlapsY = overlapDepthY_d this other
      in if overlapsX \<le> overlapsY then
           (let (this1, mx) = moveOutsideX_d this ref;
                (this2, my) = moveOutsideY_d this1 ref
            in (this2, \<lparr>x = mx, y = my\<rparr>))
         else
           (let (this1, my) = moveOutsideY_d this ref;
                (this2, mx) = moveOutsideX_d this1 ref
            in (this2, \<lparr>x = mx, y = my\<rparr>)))"

section \<open>Reachable states\<close>

text \<open>The state predicate of the jump counter: an Actor that is not in the air has
  made no jumps.\<close>

definition groundedInv :: "Actor \<Rightarrow> bool" where
  "groundedInv this \<longleftrightarrow> (\<not> inAir this \<longrightarrow> numJumps this = 0)"

text \<open>
  The states an Actor of class \<open>cls\<close> can be in: a new Actor, and the result of any
  method that changes it, called with any arguments under any globals, also
  when \<^verbatim>\<open>collideSolid\<close> throws halfway. The listeners that \<^verbatim>\<open>setDraggable\<close>
  installs set \<^verbatim>\<open>isBeingDragged\<close>.
\<close>

inductive reachable :: "ActorClass \<Rightarrow> Actor \<Rightarrow> bool" for cls :: ActorClass where
  reach_init: "reachable cls (init cls env ax ay aw ah)"
| reach_move: "reachable cls a \<Longrightarrow> reachable cls (fst (move cls env a direction))"
| reach_update: "reachable cls a \<Longrightarrow> reachable cls (fst (update cls env a direction))"
| reach_startFalling: "reachable cls a \<Longrightarrow> reachable cls (startFalling a)"
| reach_stopFalling: "reachable cls a \<Longrightarrow> reachable cls (stopFalling cls env a)"
| reach_collideSolid: "reachable cls a \<Longrightarrow>
    collideSolid cls env a (moved :: Coords) collideWith = Inr (a', collided) \<Longrightarrow>
    reachable cls a'"
| reach_collideSolid_throws: "reachable cls a \<Longrightarrow>
    collideSolid cls env a (moved :: Coords) collideWith = Inl (e, a') \<Longrightarrow>
    reachable cls a'"
| reach_release: "reachable cls a \<Longrightarrow> reachable cls (release cls env a released)"
| reach_moveOutside: "reachable cls a \<Longrightarrow> reachable cls (fst (moveOutside a (other :: Box)))"
| reach_isMoveAllowed: "reachable cls a \<Longrightarrow>
    reachable cls (fst (snd (isMoveAllowed a moved collideWith fix)))"
| reach_drag: "reachable cls a \<Longrightarrow> reachable cls (a\<lparr>isBeingDragged := dragged\<rparr>)"

section \<open>Concrete objects\<close>

text \<open>An Actor with the given position and size and the variables of a new
  Actor. (\<^verbatim>\<open>init\<close> itself replaces a coordinate of 0 by its default.)\<close>

definition actorAt :: "number \<Rightarrow> number \<Rightarrow> number \<Rightarrow> number \<Rightarrow> Actor" where
  "actorAt ax ay aw ah =
     \<lparr>x = ax, y = ay, width = aw, height = ah,
      speed = 0, lastJump = 0, lastDirection = [], lastLooked = [],
      jumpDirection_right = False, jumpDirection_left = False,
      jumpKeyDown = False, numJumps = 0, inAir = False, fallLeft = None,
      isBeingDragged = False\<rparr>"

definition boxAt :: "number \<Rightarrow> number \<Rightarrow> number \<Rightarrow> number \<Rightarrow> Box" where
  "boxAt bx by bw bh = \<lparr>x = bx, y = by, width = bw, height = bh\<rparr>"

text \<open>Key names, and the globals at clock time \<open>t\<close> with a frame time of \<open>dt\<close>
  seconds in a world and canvas of 800 by 600.\<close>

definition keysExample :: Keys where
  "keysExample =
     \<lparr>keys_left = [''left''], keys_right = [''right''], keys_up = [''up''],
      keys_down = [''down'']\<rparr>"

definition envAt :: "number \<Rightarrow> number \<Rightarrow> Env" where
  "envAt t dt =
     \<lparr>world_width = 800, world_height = 600, world_xOffset = 0, world_yOffset = 0,
      canvas_width = 800, canvas_height = 600, mouse_coords = \<lparr>x = 0, y = 0\<rparr>,
      lastDelta = dt, now = t, keys = Some keysExample\<rparr>"

text \<open>
  The TileMaps that \<^verbatim>\<open>new TileMap([[null, Box], [null, Box]], undefined,
  {cellSize: [10, 10]})\<close> and \<^verbatim>\<open>new TileMap([[Box]], undefined, {cellSize:
  [10, 10]})\<close> build in a world of 800 by 600: the start coordinates put the
  last row at the bottom of the world, and each Box is made at the corner of its
  cell (a Box made at x = 0 takes the default x of \<^verbatim>\<open>Box.init\<close>, 360).
\<close>

definition tilesExample :: "Box TileMap" where
  "tilesExample =
     newTileMap [[Null, Item (boxAt 10 580 10 10)], [Null, Item (boxAt 10 590 10 10)]]
       (0, 580) (10, 10)"

definition oneTile :: "Box TileMap" where
  "oneTile = newTileMap [[Item (boxAt 360 590 10 10)]] (0, 590) (10, 10)"

text \<open>Classes with gravity: the defaults otherwise, a multi-jump budget of 1,
  any number of jumps in the air, and a gravitational constant of 1000.\<close>

definition floorClass :: ActorClass where
  "floorClass = Actor_class\<lparr>GRAVITY := True\<rparr>"

definition jumperClass :: ActorClass where
  "jumperClass = Actor_class\<lparr>GRAVITY := True, MULTI_JUMP := 1\<rparr>"


definition gravityClass :: ActorClass where
  "gravityClass = Actor_class\<lparr>GRAVITY := True, G_CONST := 1000\<rparr>"

text \<open>Calls of \<^verbatim>\<open>move\<close> one after the other, each with the globals and the
  direction of its frame.\<close>

fun moves :: "ActorClass \<Rightarrow> Actor \<Rightarrow> (Env \<times> string list) list \<Rightarrow> Actor" where
  "moves cls this [] = this"
| "moves cls this ((env, direction) # rest) = moves cls (fst (move cls env this direction)) rest"

section \<open>moveOutside separates\<close>

lemma moveOutsideX_clears:
  "overlaps this other \<Longrightarrow> \<not> overlapsX (fst (moveOutsideX this other)) other"
  by (simp add: moveOutsideX_def overlapsX_def Let_def)

lemma moveOutsideY_clears:
  "overlaps this other \<Longrightarrow> \<not> overlapsY (fst (moveOutsideY this other)) other"
  by (simp add: moveOutsideY_def overlapsY_def Let_def)

lemma moveOutsideX_idle:
  "\<not> overlaps this other \<Longrightarrow> moveOutsideX this other = (this, 0)"
  by (simp add: moveOutsideX_def)

lemma moveOutsideY_idle:
  "\<not> overlaps this other \<Longrightarrow> moveOutsideY this other = (this, 0)"
  by (simp add: moveOutsideY_def)

lemma moveOutside_X_first:
  assumes "overlaps this other"
    and "overlapDepthX this other \<le> overlapDepthY this other"
  shows "fst (moveOutside this other) = fst (moveOutsideX this other)"
proof -
  have "\<not> overlaps (fst (moveOutsideX this other)) other"
    using moveOutsideX_clears [OF assms(1)] by (simp add: overlaps_def)
  then have "moveOutsideY (fst (moveOutsideX this other)) other = (fst (moveOutsideX this other), 0)"
    by (rule moveOutsideY_idle)
  then show ?thesis
    using assms(2) by (simp add: moveOutside_def Let_def split_beta)
qed

lemma moveOutside_Y_first:
  assumes "overlaps this other"
    and "\<not> overlapDepthX this other \<le> overlapDepthY this other"
  shows "fst (moveOutside this other) = fst (moveOutsideY this other)"
proof -
  have "\<not> overlaps (fst (moveOutsideY this other)) other"
    using moveOutsideY_clears [OF assms(1)] by (simp add: overlaps_def)
  then have "moveOutsideX (fst (moveOutsideY this other)) other = (fst (moveOutsideY this other), 0)"
    by (rule moveOutsideX_idle)
  then show ?thesis
    using assms(2) by (simp add: moveOutside_def Let_def split_beta)
qed

lemma moveOutside_no_overlap:
  "\<not> overlaps (fst (moveOutside this other)) other"
proof (cases "overlaps this other")
  case False
  then show ?thesis
    by (simp add: moveOutside_def Let_def moveOutsideX_idle moveOutsideY_idle)
next
  case True
  show ?thesis
  proof (cases "overlapDepthX this other \<le> overlapDepthY this other")
    case True
    with \<open>overlaps this other\<close> moveOutsideX_clears [of this other] show ?thesis
      by (simp add: moveOutside_X_first overlaps_def)
  next
    case False
    with \<open>overlaps this other\<close> moveOutsideY_clears [of this other] show ?thesis
      by (simp add: moveOutside_Y_first overlaps_def)
  qed
qed


subsection \<open>Rounding\<close>

text \<open>The exponent is the one of the definition; rounding leaves a double as it
  is, is off by at most a quarter below 2^52, and keeps the sign.\<close>

lemma ilog2_nat_bounds:
  "1 \<le> n \<Longrightarrow> 0 \<le> ilog2 n \<and> 2 ^ nat (ilog2 n) \<le> n \<and> n < 2 * 2 ^ nat (ilog2 n)"
proof (induction n rule: ilog2.induct)
  case (1 n)
  show ?case
  proof (cases "n \<le> 1")
    case True
    with "1.prems" have "n = 1" by simp
    then show ?thesis
      by (simp add: ilog2.simps)
  next
    case False
    then have h: "1 \<le> n div 2" by simp
    from "1.IH" [OF False h] have ih: "0 \<le> ilog2 (n div 2)"
      "2 ^ nat (ilog2 (n div 2)) \<le> n div 2" "n div 2 < 2 * 2 ^ nat (ilog2 (n div 2))"
      by simp_all
    have e: "ilog2 n = 1 + ilog2 (n div 2)"
      using False by (subst ilog2.simps) simp
    have p: "(2::int) ^ nat (1 + ilog2 (n div 2)) = 2 * 2 ^ nat (ilog2 (n div 2))"
      using ih(1) by (simp add: nat_add_distrib)
    show ?thesis
      unfolding e p using ih by (simp; linarith)
  qed
qed

lemma ilog2_bounds:
  assumes "1 \<le> n"
  shows "(2::rat) powi ilog2 n \<le> of_int n" and "of_int n < (2::rat) powi (ilog2 n + 1)"
proof -
  note b = ilog2_nat_bounds [OF assms]
  have p: "(2::rat) powi ilog2 n = of_int (2 ^ nat (ilog2 n))"
    using b by (simp add: power_int_def)
  have q: "(2::rat) powi (ilog2 n + 1) = of_int (2 * 2 ^ nat (ilog2 n))"
    using b by (simp add: power_int_def nat_add_distrib)
  show "(2::rat) powi ilog2 n \<le> of_int n"
    unfolding p using b by (subst of_int_le_iff) simp
  show "of_int n < (2::rat) powi (ilog2 n + 1)"
    unfolding q using b by (subst of_int_less_iff) simp
qed

lemma expo_bounds:
  assumes "v \<noteq> 0"
  shows "2 powi expo v \<le> \<bar>v\<bar>" and "\<bar>v\<bar> < 2 powi (expo v + 1)"
proof -
  obtain n d where q: "quotient_of \<bar>v\<bar> = (n, d)"
    by (cases "quotient_of \<bar>v\<bar>")
  have d: "0 < d"
    using q by (rule quotient_of_denom_pos)
  have v: "\<bar>v\<bar> = of_int n / of_int d"
    using q by (rule quotient_of_div)
  have "0 < \<bar>v\<bar>"
    using assms by simp
  then have n: "0 < n"
    unfolding v using d by (simp add: zero_less_divide_iff)
  define k where "k = ilog2 n - ilog2 d"
  have e: "expo v = (if 2 powi k \<le> \<bar>v\<bar> then k else k - 1)"
    by (simp add: expo_def q k_def Let_def)
  have bn: "(2::rat) powi ilog2 n \<le> of_int n" "of_int n < (2::rat) powi (ilog2 n + 1)"
    using ilog2_bounds [of n] n by simp_all
  have bd: "(2::rat) powi ilog2 d \<le> of_int d" "of_int d < (2::rat) powi (ilog2 d + 1)"
    using ilog2_bounds [of d] d by simp_all
  have dp: "(0::rat) < of_int d" "(0::rat) < of_int n"
    using d n by simp_all
  have pp: "(0::rat) < 2 powi j" for j
    by simp
  have "of_int n / of_int d < (2::rat) powi (ilog2 n + 1) / 2 powi ilog2 d"
    using bn(2) bd(1) dp pp [of "ilog2 d"] by (intro frac_less) simp_all
  also have "\<dots> = 2 powi (k + 1)"
    by (simp add: k_def power_int_diff [symmetric] algebra_simps)
  finally have up: "\<bar>v\<bar> < 2 powi (k + 1)"
    by (simp add: v)
  have "(2::rat) powi ilog2 n / 2 powi (ilog2 d + 1) < of_int n / of_int d"
    using bn(1) bd(2) dp pp [of "ilog2 n"] by (intro frac_less2) simp_all
  moreover have "(2::rat) powi ilog2 n / 2 powi (ilog2 d + 1) = 2 powi (k - 1)"
    by (simp add: k_def power_int_diff [symmetric] algebra_simps)
  ultimately have lo: "2 powi (k - 1) < \<bar>v\<bar>"
    by (simp add: v)
  show "2 powi expo v \<le> \<bar>v\<bar>"
    using lo by (simp add: e)
  show "\<bar>v\<bar> < 2 powi (expo v + 1)"
    using up by (auto simp: e)
qed



lemma rne_of_int [simp]: "rne (of_int n) = n"
  by (simp add: rne_def)

lemma rne_error: "\<bar>of_int (rne v) - v\<bar> \<le> 1/2"
proof -
  have "of_int \<lfloor>v\<rfloor> \<le> v" "v < of_int \<lfloor>v\<rfloor> + 1"
    by linarith+
  then show ?thesis
    by (auto simp: rne_def Let_def)
qed



lemma rnd_exact:
  assumes "\<bar>m\<bar> < 2 ^ 53" and "- 1074 \<le> e"
  shows "rnd (of_int m * 2 powi e) = of_int m * 2 powi e"
proof (cases "m = 0")
  case True
  then show ?thesis
    by (simp add: rnd_def)
next
  case False
  define v :: rat where "v = of_int m * 2 powi e"
  have nz: "v \<noteq> 0"
    using False by (simp add: v_def)
  define p where "p = max (expo v) (- 1022) - 52"
  have "\<bar>v\<bar> = of_int \<bar>m\<bar> * 2 powi e"
    by (simp add: v_def abs_mult)
  also have "\<dots> < of_int (2 ^ 53) * 2 powi e"
    using assms(1) by (intro mult_strict_right_mono) (simp_all only: of_int_less_iff zero_less_power_int zero_less_numeral)
  also have "\<dots> = 2 powi (53 + e)"
    by (simp add: power_int_add)
  finally have "2 powi expo v < (2::rat) powi (53 + e)"
    using expo_bounds(1) [OF nz] by simp
  then have "expo v < 53 + e"
    using power_int_increasing [of "53 + e" "expo v" "2::rat"] by (cases "expo v < 53 + e") auto
  then have pe: "p \<le> e"
    using assms(2) by (simp add: p_def)
  have "v / 2 powi p = of_int m * 2 powi (e - p)"
    by (simp add: v_def power_int_diff)
  also have "\<dots> = of_int (m * 2 ^ nat (e - p))"
    using pe by (simp add: power_int_def)
  finally have "rne (v / 2 powi p) = m * 2 ^ nat (e - p)"
    by (simp only: rne_of_int)
  then have "of_int (rne (v / 2 powi p)) * 2 powi p = of_int m * 2 powi (e - p) * 2 powi p"
    using pe by (simp add: power_int_def)
  also have "\<dots> = v"
    by (simp add: v_def power_int_diff)
  finally show ?thesis
    using nz by (simp add: rnd_def Let_def p_def v_def)
qed

lemma rnd_Ints:
  assumes "v \<in> \<int>" and "\<bar>v\<bar> < 2 ^ 53"
  shows "rnd v = v"
proof -
  from assms(1) obtain m where m: "v = of_int m"
    by (rule Ints_cases)
  have "\<bar>m\<bar> < 2 ^ 53"
    using assms(2) unfolding m by (simp flip: of_int_abs)
  from rnd_exact [OF this, of 0] show ?thesis
    by (simp add: m)
qed

lemma rnd_half:
  assumes "v \<in> \<int>" and "\<bar>v\<bar> < 2 ^ 53"
  shows "rnd (v / 2) = v / 2"
proof -
  from assms(1) obtain m where m: "v = of_int m"
    by (rule Ints_cases)
  have "\<bar>m\<bar> < 2 ^ 53"
    using assms(2) unfolding m by (simp flip: of_int_abs)
  from rnd_exact [OF this, of "- 1"] show ?thesis
    by (simp add: m power_int_minus)
qed

lemma rnd_error:
  assumes "\<bar>v\<bar> < 2 ^ 52"
  shows "\<bar>rnd v - v\<bar> \<le> 1/4"
proof (cases "v = 0")
  case True
  then show ?thesis
    by (simp add: rnd_def)
next
  case False
  define p where "p = max (expo v) (- 1022) - 52"
  define q :: rat where "q = 2 powi p"
  have "2 powi expo v < (2::rat) powi 52"
    using expo_bounds(1) [OF False] assms by simp
  then have "expo v < 52"
    using power_int_increasing [of 52 "expo v" "2::rat"] by (cases "expo v < 52") auto
  then have "p \<le> - 1"
    by (simp add: p_def)
  then have "q \<le> 2 powi (- 1)"
    unfolding q_def by (intro power_int_increasing) simp_all
  then have q: "0 < q" "q \<le> 1/2"
    by (simp_all add: q_def power_int_minus)
  have "rnd v - v = (of_int (rne (v / q)) - v / q) * q"
    using False q(1) by (simp add: rnd_def Let_def p_def q_def algebra_simps)
  then have "\<bar>rnd v - v\<bar> = \<bar>of_int (rne (v / q)) - v / q\<bar> * q"
    using q(1) by (simp add: abs_mult)
  also have "\<dots> \<le> 1/2 * (1/2)"
    using rne_error [of "v / q"] q by (intro mult_mono) simp_all
  finally show ?thesis
    by simp
qed






lemma rnd_zero_one [simp]: "rnd 0 = 0" "rnd 1 = 1" "rnd (- 1) = - 1"
  using rnd_exact [of 1 0] rnd_exact [of "- 1" 0] by (simp_all add: rnd_def)

subsection \<open>moveOutside in double precision\<close>

lemma deref_Another [simp]: "deref this (Another b) = b"
  by (simp add: deref_def)

lemma rnd_near:
  assumes "\<bar>v\<bar> < 4503599627370496"
  shows "\<bar>rnd v - v\<bar> \<le> 1/4"
  using rnd_error [of v] assms by simp

lemma rnd_int_exact:
  assumes "v \<in> \<int>" and "\<bar>v\<bar> < 9007199254740992"
  shows "rnd v = v"
  using rnd_Ints [of v] assms by simp

lemma rnd_half_exact:
  assumes "v \<in> \<int>" and "\<bar>v\<bar> < 9007199254740992"
  shows "rnd (v / 2) = v / 2"
  using rnd_half [of v] assms by simp

lemma moveOutsideX_d_idle:
  "\<not> overlaps_d this (deref this ref) \<Longrightarrow> moveOutsideX_d this ref = (this, 0)"
  by (simp add: moveOutsideX_d_def)

lemma moveOutsideY_d_idle:
  "\<not> overlaps_d this (deref this ref) \<Longrightarrow> moveOutsideY_d this ref = (this, 0)"
  by (simp add: moveOutsideY_d_def)

text \<open>Within 2^50 the three roundings on the way from the solid's edge to the
  body's new edge add up to less than the one unit that \<^verbatim>\<open>moveOutsideX\<close> leaves.\<close>

lemma moveOutsideX_d_clears:
  fixes other :: Box
  assumes "\<bar>x this\<bar> \<le> 2 ^ 50" and "\<bar>width this\<bar> \<le> 2 ^ 50"
    and "\<bar>x other\<bar> \<le> 2 ^ 50" and "\<bar>width other\<bar> \<le> 2 ^ 50"
    and "overlaps_d this other"
  shows "\<not> overlapsX_d (fst (moveOutsideX_d this (Another other))) other"
    and "\<bar>x other - (x (fst (moveOutsideX_d this (Another other))) + width this) - 1\<bar> \<le> 1/2 \<or>
         \<bar>x (fst (moveOutsideX_d this (Another other))) - (x other + width other) - 1\<bar> \<le> 1/2"
proof -
  have b: "\<bar>x this\<bar> \<le> 1125899906842624" "\<bar>width this\<bar> \<le> 1125899906842624"
    "\<bar>x other\<bar> \<le> 1125899906842624" "\<bar>width other\<bar> \<le> 1125899906842624"
    using assms(1-4) by simp_all
  have e1: "\<bar>rnd (x other - width this) - (x other - width this)\<bar> \<le> 1/4"
    using b by (intro rnd_near) linarith
  have e2: "\<bar>rnd (rnd (x other - width this) - 1) - (rnd (x other - width this) - 1)\<bar> \<le> 1/4"
    using b e1 by (intro rnd_near) linarith
  have e3: "\<bar>rnd (rnd (rnd (x other - width this) - 1) + width this)
      - (rnd (rnd (x other - width this) - 1) + width this)\<bar> \<le> 1/4"
    using b e1 e2 by (intro rnd_near) linarith
  have f1: "\<bar>rnd (x other + width other) - (x other + width other)\<bar> \<le> 1/4"
    using b by (intro rnd_near) linarith
  have f2: "\<bar>rnd (rnd (x other + width other) + 1) - (rnd (x other + width other) + 1)\<bar> \<le> 1/4"
    using b f1 by (intro rnd_near) linarith
  show "\<not> overlapsX_d (fst (moveOutsideX_d this (Another other))) other"
  proof (cases "rnd (x this + rnd (width this / 2)) < rnd (x other + rnd (width other / 2))")
    case True
    have "rnd (rnd (rnd (x other - width this) - 1) + width this) < x other"
      using e1 e2 e3 by linarith
    then show ?thesis
      using True assms(5) by (simp add: moveOutsideX_d_def overlapsX_d_def Let_def)
  next
    case False
    have "rnd (x other + width other) < rnd (rnd (x other + width other) + 1)"
      using f1 f2 by linarith
    then show ?thesis
      using False assms(5) by (simp add: moveOutsideX_d_def overlapsX_d_def Let_def)
  qed
  show "\<bar>x other - (x (fst (moveOutsideX_d this (Another other))) + width this) - 1\<bar> \<le> 1/2 \<or>
         \<bar>x (fst (moveOutsideX_d this (Another other))) - (x other + width other) - 1\<bar> \<le> 1/2"
  proof (cases "rnd (x this + rnd (width this / 2)) < rnd (x other + rnd (width other / 2))")
    case True
    have "\<bar>x other - (rnd (rnd (x other - width this) - 1) + width this) - 1\<bar> \<le> 1/2"
      using e1 e2 by linarith
    then show ?thesis
      using True assms(5) by (simp add: moveOutsideX_d_def Let_def)
  next
    case False
    have "\<bar>rnd (rnd (x other + width other) + 1) - (x other + width other) - 1\<bar> \<le> 1/2"
      using f1 f2 by linarith
    then show ?thesis
      using False assms(5) by (simp add: moveOutsideX_d_def Let_def)
  qed
qed

lemma moveOutsideY_d_clears:
  fixes other :: Box
  assumes "\<bar>y this\<bar> \<le> 2 ^ 50" and "\<bar>height this\<bar> \<le> 2 ^ 50"
    and "\<bar>y other\<bar> \<le> 2 ^ 50" and "\<bar>height other\<bar> \<le> 2 ^ 50"
    and "overlaps_d this other"
  shows "\<not> overlapsY_d (fst (moveOutsideY_d this (Another other))) other"
    and "\<bar>y other - (y (fst (moveOutsideY_d this (Another other))) + height this) - 1\<bar> \<le> 1/2 \<or>
         \<bar>y (fst (moveOutsideY_d this (Another other))) - (y other + height other) - 1\<bar> \<le> 1/2"
proof -
  have b: "\<bar>y this\<bar> \<le> 1125899906842624" "\<bar>height this\<bar> \<le> 1125899906842624"
    "\<bar>y other\<bar> \<le> 1125899906842624" "\<bar>height other\<bar> \<le> 1125899906842624"
    using assms(1-4) by simp_all
  have e1: "\<bar>rnd (y other - height this) - (y other - height this)\<bar> \<le> 1/4"
    using b by (intro rnd_near) linarith
  have e2: "\<bar>rnd (rnd (y other - height this) - 1) - (rnd (y other - height this) - 1)\<bar> \<le> 1/4"
    using b e1 by (intro rnd_near) linarith
  have e3: "\<bar>rnd (rnd (rnd (y other - height this) - 1) + height this)
      - (rnd (rnd (y other - height this) - 1) + height this)\<bar> \<le> 1/4"
    using b e1 e2 by (intro rnd_near) linarith
  have f1: "\<bar>rnd (y other + height other) - (y other + height other)\<bar> \<le> 1/4"
    using b by (intro rnd_near) linarith
  have f2: "\<bar>rnd (rnd (y other + height other) + 1) - (rnd (y other + height other) + 1)\<bar> \<le> 1/4"
    using b f1 by (intro rnd_near) linarith
  show "\<not> overlapsY_d (fst (moveOutsideY_d this (Another other))) other"
  proof (cases "rnd (y this + rnd (height this / 2)) \<le> rnd (y other + rnd (height other / 2))")
    case True
    have "rnd (rnd (rnd (y other - height this) - 1) + height this) < y other"
      using e1 e2 e3 by linarith
    then show ?thesis
      using True assms(5) by (simp add: moveOutsideY_d_def overlapsY_d_def Let_def)
  next
    case False
    have "rnd (y other + height other) < rnd (rnd (y other + height other) + 1)"
      using f1 f2 by linarith
    then show ?thesis
      using False assms(5) by (simp add: moveOutsideY_d_def overlapsY_d_def Let_def)
  qed
  show "\<bar>y other - (y (fst (moveOutsideY_d this (Another other))) + height this) - 1\<bar> \<le> 1/2 \<or>
         \<bar>y (fst (moveOutsideY_d this (Another other))) - (y other + height other) - 1\<bar> \<le> 1/2"
  proof (cases "rnd (y this + rnd (height this / 2)) \<le> rnd (y other + rnd (height other / 2))")
    case True
    have "\<bar>y other - (rnd (rnd (y other - height this) - 1) + height this) - 1\<bar> \<le> 1/2"
      using e1 e2 by linarith
    then show ?thesis
      using True assms(5) by (simp add: moveOutsideY_d_def Let_def)
  next
    case False
    have "\<bar>rnd (rnd (y other + height other) + 1) - (y other + height other) - 1\<bar> \<le> 1/2"
      using f1 f2 by linarith
    then show ?thesis
      using False assms(5) by (simp add: moveOutsideY_d_def Let_def)
  qed
qed





lemma small_exact:
  assumes "a \<in> \<int>" and "b \<in> \<int>" and "c \<in> \<int>"
    and "\<bar>a\<bar> \<le> 2 ^ 50" and "\<bar>b\<bar> \<le> 2 ^ 50" and "\<bar>c\<bar> \<le> 2 ^ 50"
  shows "rnd (a + b) = a + b" and "rnd (a - b) = a - b" and "rnd (a + b - c) = a + b - c"
    and "rnd (a - b - 1) = a - b - 1" and "rnd (a + b + 1) = a + b + 1"
    and "rnd (a - b - 1 - c) = a - b - 1 - c" and "rnd (a + b + 1 - c) = a + b + 1 - c"
    and "rnd (b / 2) = b / 2" and "rnd (a + b / 2) = a + b / 2"
proof -
  have b: "\<bar>a\<bar> \<le> 1125899906842624" "\<bar>b\<bar> \<le> 1125899906842624" "\<bar>c\<bar> \<le> 1125899906842624"
    using assms(4-6) by simp_all
  note i = assms(1-3)
  show "rnd (a + b) = a + b"
    using i b by (intro rnd_int_exact) (simp, linarith)
  show "rnd (a - b) = a - b"
    using i b by (intro rnd_int_exact) (simp, linarith)
  show "rnd (a + b - c) = a + b - c"
    using i b by (intro rnd_int_exact) (simp, linarith)
  show "rnd (a - b - 1) = a - b - 1"
    using i b by (intro rnd_int_exact) (simp, linarith)
  show "rnd (a + b + 1) = a + b + 1"
    using i b by (intro rnd_int_exact) (simp, linarith)
  show "rnd (a - b - 1 - c) = a - b - 1 - c"
    using i b by (intro rnd_int_exact) (simp, linarith)
  show "rnd (a + b + 1 - c) = a + b + 1 - c"
    using i b by (intro rnd_int_exact) (simp, linarith)
  show "rnd (b / 2) = b / 2"
    using i b by (intro rnd_half_exact) (simp, linarith)
  have "rnd ((2 * a + b) / 2) = (2 * a + b) / 2"
    using i b by (intro rnd_half_exact) (simp, linarith)
  moreover have "(2 * a + b) / 2 = a + b / 2"
    by (simp add: add_divide_distrib)
  ultimately show "rnd (a + b / 2) = a + b / 2"
    by simp
qed

text \<open>On whole numbers up to 2^50 no operation of the Box methods rounds: the
  methods in double precision and the exact ones agree.\<close>

lemma overlaps_d_exact:
  assumes "\<forall>v \<in> set [x this, y this, width this, height this,
      x other, y other, width other, height other]. v \<in> \<int> \<and> \<bar>v\<bar> \<le> 2 ^ 50"
  shows "overlaps_d this other = overlaps this other"
    and "overlapDepthX_d this other = overlapDepthX this other"
    and "overlapDepthY_d this other = overlapDepthY this other"
proof -
  note s1 = small_exact [of "x this" "width this" "x other"]
    and s2 = small_exact [of "x other" "width other" "x this"]
    and s3 = small_exact [of "y this" "height this" "y other"]
    and s4 = small_exact [of "y other" "height other" "y this"]
  show "overlaps_d this other = overlaps this other"
    using assms
    by (simp add: overlaps_d_def overlapsX_d_def overlapsY_d_def overlaps_def overlapsX_def
        overlapsY_def s1(1) s2(1) s3(1) s4(1))
  show "overlapDepthX_d this other = overlapDepthX this other"
    using assms by (simp add: overlapDepthX_d_def overlapDepthX_def s1(1,3) s2(1,3))
  show "overlapDepthY_d this other = overlapDepthY this other"
    using assms by (simp add: overlapDepthY_d_def overlapDepthY_def s3(1,3) s4(1,3))
qed

lemma moveOutsideX_d_exact:
  fixes other :: Box
  assumes "\<forall>v \<in> set [x this, y this, width this, height this,
      x other, y other, width other, height other]. v \<in> \<int> \<and> \<bar>v\<bar> \<le> 2 ^ 50"
  shows "moveOutsideX_d this (Another other) = moveOutsideX this other"
proof -
  note s1 = small_exact [of "x this" "width this" "x other"]
    and s2 = small_exact [of "x other" "width other" "x this"]
    and s3 = small_exact [of "x other" "width this" "x this"]
  show ?thesis
    using assms
    by (simp add: moveOutsideX_d_def moveOutsideX_def overlaps_d_exact(1) [OF assms] Let_def
        s1(8,9) s2(1,5,7,8,9) s3(2,4,6))
qed

lemma moveOutsideY_d_exact:
  fixes other :: Box
  assumes "\<forall>v \<in> set [x this, y this, width this, height this,
      x other, y other, width other, height other]. v \<in> \<int> \<and> \<bar>v\<bar> \<le> 2 ^ 50"
  shows "moveOutsideY_d this (Another other) = moveOutsideY this other"
proof -
  note s1 = small_exact [of "y this" "height this" "y other"]
    and s2 = small_exact [of "y other" "height other" "y this"]
    and s3 = small_exact [of "y other" "height this" "y this"]
  show ?thesis
    using assms
    by (simp add: moveOutsideY_d_def moveOutsideY_def overlaps_d_exact(1) [OF assms] Let_def
        s1(8,9) s2(1,5,7,8,9) s3(2,4,6))
qed

lemma moveOutside_d_exact:
  fixes other :: Box
  assumes "\<forall>v \<in> set [x this, y this, width this, height this,
      x other, y other, width other, height other]. v \<in> \<int> \<and> \<bar>v\<bar> \<le> 2 ^ 50"
  shows "moveOutside_d this (Another other) = moveOutside this other"
proof -
  have b: "\<bar>x this\<bar> \<le> 2 ^ 50" "\<bar>width this\<bar> \<le> 2 ^ 50" "\<bar>x other\<bar> \<le> 2 ^ 50"
    "\<bar>width other\<bar> \<le> 2 ^ 50" "\<bar>y this\<bar> \<le> 2 ^ 50" "\<bar>height this\<bar> \<le> 2 ^ 50"
    "\<bar>y other\<bar> \<le> 2 ^ 50" "\<bar>height other\<bar> \<le> 2 ^ 50"
    using assms by simp_all
  note ex = overlaps_d_exact [OF assms] moveOutsideX_d_exact [OF assms]
    moveOutsideY_d_exact [OF assms]
  show ?thesis
  proof (cases "overlaps this other")
    case False
    then have "\<not> overlaps_d this other"
      by (simp add: ex)
    then show ?thesis
      using False
      by (simp add: moveOutside_d_def moveOutside_def Let_def moveOutsideX_d_idle
          moveOutsideY_d_idle moveOutsideX_idle moveOutsideY_idle)
  next
    case True
    then have ov: "overlaps_d this other"
      by (simp add: ex)
    show ?thesis
    proof (cases "overlapDepthX this other \<le> overlapDepthY this other")
      case le: True
      have "\<not> overlaps_d (fst (moveOutsideX this other)) other"
        using moveOutsideX_d_clears(1) [OF b(1-4) ov] by (simp add: ex overlaps_d_def)
      then have d: "moveOutsideY_d (fst (moveOutsideX this other)) (Another other)
          = (fst (moveOutsideX this other), 0)"
        by (intro moveOutsideY_d_idle) simp
      have "\<not> overlaps (fst (moveOutsideX this other)) other"
        using moveOutsideX_clears [OF True] by (simp add: overlaps_def)
      then have e: "moveOutsideY (fst (moveOutsideX this other)) other
          = (fst (moveOutsideX this other), 0)"
        by (rule moveOutsideY_idle)
      show ?thesis
        using le by (simp add: moveOutside_d_def moveOutside_def Let_def split_beta ex d e)
    next
      case gt: False
      have "\<not> overlaps_d (fst (moveOutsideY this other)) other"
        using moveOutsideY_d_clears(1) [OF b(5-8) ov] by (simp add: ex overlaps_d_def)
      then have d: "moveOutsideX_d (fst (moveOutsideY this other)) (Another other)
          = (fst (moveOutsideY this other), 0)"
        by (intro moveOutsideX_d_idle) simp
      have "\<not> overlaps (fst (moveOutsideY this other)) other"
        using moveOutsideY_clears [OF True] by (simp add: overlaps_def)
      then have e: "moveOutsideX (fst (moveOutsideY this other)) other
          = (fst (moveOutsideY this other), 0)"
        by (rule moveOutsideX_idle)
      show ?thesis
        using gt by (simp add: moveOutside_d_def moveOutside_def Let_def split_beta ex d e)
    qed
  qed
qed

text \<open>The exact \<^verbatim>\<open>moveOutside\<close> and the one in double precision agree on the
  scenario of claim C7.\<close>

lemma moveOutside_scenario_rounded:
  "moveOutside_d (actorAt 0 0 10 10) (Another (boxAt 5 0 10 10))
     = moveOutside (actorAt 0 0 10 10) (boxAt 5 0 10 10)"
  by (rule moveOutside_d_exact) (simp add: actorAt_def boxAt_def)






text \<open>
  Claim C7, as stated, fails: for the body at (0, 0, 10, 10) and the solid at
  (5, 0, 10, 10), \<^verbatim>\<open>moveOutside\<close> does not leave the body at x = -11.
\<close>

theorem moveOutside_scenario_not_minus_11:
  "\<not> (overlapsX (actorAt 0 0 10 10) (boxAt 5 0 10 10) \<and>
      x (fst (moveOutside (actorAt 0 0 10 10) (boxAt 5 0 10 10))) = - 11)"
  by (simp add: moveOutside_def moveOutsideX_def moveOutsideY_def overlaps_def overlapsX_def
      overlapsY_def overlapDepthX_def overlapDepthY_def actorAt_def boxAt_def Let_def)

text \<open>
  Claim C7, amended. For the body at (0, 0, 10, 10) and the solid at
  (5, 0, 10, 10), \<^verbatim>\<open>overlapsX\<close> is true, the body's centre x (5) is left of the
  solid's (10), and \<^verbatim>\<open>moveOutside\<close> moves the body to x = -6
  (\<^verbatim>\<open>other.x - this.width - 1\<close>), its right edge one unit left of the solid; y
  stays 0 and the displacement returned is (-6, 0).
\<close>

theorem moveOutside_scenario:
  "overlapsX (actorAt 0 0 10 10) (boxAt 5 0 10 10) \<and>
   xC (actorAt 0 0 10 10) = 5 \<and> xC (boxAt 5 0 10 10) = 10 \<and>
   moveOutside (actorAt 0 0 10 10) (boxAt 5 0 10 10) =
     ((actorAt 0 0 10 10)\<lparr>x := - 6\<rparr>, \<lparr>x = - 6, y = 0\<rparr>) \<and>
   x (fst (moveOutside (actorAt 0 0 10 10) (boxAt 5 0 10 10))) + width (actorAt 0 0 10 10)
     = x (boxAt 5 0 10 10) - 1"
  by (simp add: moveOutside_def moveOutsideX_def moveOutsideY_def overlaps_def overlapsX_def
      overlapsY_def overlapDepthX_def overlapDepthY_def actorAt_def boxAt_def xC_def Let_def)

section \<open>TileMap: clearAll and getCellsInRect\<close>

lemma tilesExample_built:
  "TileMap_init (envAt t dt) [[False, True], [False, True]] (10, 10) = tilesExample"
  by (simp add: TileMap_init_def Box_init_def js_or_def tilesExample_def boxAt_def envAt_def
      Let_def)

lemma oneTile_built:
  "TileMap_init (envAt t dt) [[True]] (10, 10) = oneTile"
  by (simp add: TileMap_init_def Box_init_def js_or_def oneTile_def boxAt_def envAt_def Let_def)

lemma concat_replicate_replicate:
  "concat (replicate w (replicate h a)) = replicate (w * h) a"
  by (induction w) (simp_all add: replicate_add)

lemma getAll_holes:
  "concat (map (\<lambda>i. filter notNull (map (js_get (replicate w (replicate h Undefined) ! i)) [0..<h]))
      [0..<w]) = replicate (w * h) (Undefined :: 'a cell)"
proof -
  have row: "filter notNull (map (js_get (replicate h (Undefined :: 'a cell))) [0..<h])
      = replicate h Undefined"
    by (rule nth_equalityI) (auto simp: js_get_def notNull_def filter_id_conv)
  have "map (\<lambda>i. filter notNull (map (js_get (replicate w (replicate h Undefined) ! i)) [0..<h]))
      [0..<w] = replicate w (replicate h (Undefined :: 'a cell))"
    by (rule nth_equalityI) (simp_all add: row)
  then show ?thesis
    by (simp add: concat_replicate_replicate)
qed

lemma clearAll_write_row:
  "i < length g \<Longrightarrow>
     \<exists>g'. fold (clearAll_write i) js (Inr g) = Inr g' \<and> length g' = length g"
proof (induction js arbitrary: g)
  case Nil
  then show ?case by simp
next
  case (Cons j js)
  have "clearAll_write i j (Inr g) = Inr (g[i := js_set (g ! i) j Null])"
    using Cons.prems by (simp add: clearAll_write_def)
  moreover have "i < length (g[i := js_set (g ! i) j Null])"
    using Cons.prems by simp
  ultimately show ?case
    using Cons.IH [of "g[i := js_set (g ! i) j Null]"] by simp
qed

lemma clearAll_write_rows:
  "list_all (\<lambda>i. i < length g) rows \<Longrightarrow>
     \<exists>g'. fold (\<lambda>i. fold (clearAll_write i) js) rows (Inr g) = Inr g' \<and> length g' = length g"
proof (induction rows arbitrary: g)
  case Nil
  then show ?case by simp
next
  case (Cons i rows)
  from Cons.prems have "i < length g" by simp
  then obtain g1 where g1: "fold (clearAll_write i) js (Inr g) = Inr g1" "length g1 = length g"
    using clearAll_write_row by blast
  from Cons.prems g1(2) have "list_all (\<lambda>i. i < length g1) rows" by simp
  from Cons.IH [OF this] g1 show ?case by simp
qed

lemma clearAll_returns:
  assumes "getRows tm \<le> length (arrays tm (grid tm))"
  shows "\<exists>tm'. clearAll tm = Inr tm'"
proof -
  define w where "w = length (arrays tm (this_grid tm))"
  define h where "h = (if w > 0 then length (arrays tm (this_grid tm) ! 0) else 0)"
  define fresh where "fresh = Suc (max (this_grid tm) (grid tm))"
  have ne: "grid tm \<noteq> fresh"
    by (simp add: fresh_def)
  have "list_all (\<lambda>i. i < length (arrays tm (grid tm))) [0..<w]"
    using assms by (simp add: list_all_iff getRows_def w_def)
  then obtain g' where "fold (\<lambda>i. fold (clearAll_write i) [0..<h]) [0..<w]
      (Inr (arrays tm (grid tm))) = Inr g'"
    using clearAll_write_rows by blast
  then show ?thesis
    using ne by (simp add: clearAll_def Let_def w_def h_def fresh_def)
qed

lemma clearAll_then_getAll:
  assumes "clearAll tm = Inr tm'"
  shows "getAll tm' = replicate (getRows tm * getCols tm) Undefined"
proof -
  define w where "w = length (arrays tm (this_grid tm))"
  define h where "h = (if w > 0 then length (arrays tm (this_grid tm) ! 0) else 0)"
  define fresh where "fresh = Suc (max (this_grid tm) (grid tm))"
  have ne: "grid tm \<noteq> fresh"
    by (simp add: fresh_def)
  from assms have tg: "this_grid tm' = fresh"
    and ar: "arrays tm' fresh = replicate w (replicate h Undefined)"
    using ne by (auto simp: clearAll_def Let_def w_def h_def fresh_def split: sum.splits)
  have h': "(if w > 0 then length (replicate w (replicate h (Undefined :: 'a cell)) ! 0) else 0) = h"
    by (simp add: h_def)
  show ?thesis
    unfolding getAll_def Let_def tg ar
    by (simp add: h' getAll_holes getRows_def getCols_def w_def h_def Let_def del: replicate.simps)
qed

text \<open>
  Claim C10 fails on the code. For every TileMap with at least one row and one
  column (whose grid the constructor's variable still reaches with as many rows,
  as in every TileMap the constructor built), \<^verbatim>\<open>clearAll\<close> returns and
  \<^verbatim>\<open>getAll\<close> then returns one \<^verbatim>\<open>undefined\<close> for every cell, not the empty
  array: the loop writes its \<^verbatim>\<open>null\<close>s to \<^verbatim>\<open>grid[i][j]\<close>, the old array, and
  leaves the new rows of \<^verbatim>\<open>this.grid\<close> as holes, which \<^verbatim>\<open>getAll\<close> does not
  take for \<^verbatim>\<open>null\<close>.
\<close>

theorem clearAll_leaves_undefined:
  assumes "getRows tm \<le> length (arrays tm (grid tm))"
    and "0 < getRows tm" and "0 < getCols tm"
  shows "\<exists>tm'. clearAll tm = Inr tm' \<and>
     getAll tm' = replicate (getRows tm * getCols tm) Undefined \<and> getAll tm' \<noteq> []"
proof -
  from clearAll_returns [OF assms(1)] obtain tm' where r: "clearAll tm = Inr tm'" ..
  have "getAll tm' = replicate (getRows tm * getCols tm) Undefined"
    using r by (rule clearAll_then_getAll)
  moreover have "0 < getRows tm * getCols tm"
    using assms(2,3) by simp
  ultimately show ?thesis
    using r by auto
qed

text \<open>The failing input of C10: the TileMap of a single tile. Before
  \<^verbatim>\<open>clearAll\<close>, \<^verbatim>\<open>getAll\<close> returns the tile; after it, [undefined].\<close>

theorem clearAll_leaves_undefined_witness:
  "getRows oneTile \<le> length (arrays oneTile (grid oneTile)) \<and>
   0 < getRows oneTile \<and> 0 < getCols oneTile \<and>
   getAll oneTile = [Item (boxAt 360 590 10 10)] \<and>
   (\<exists>tm'. clearAll oneTile = Inr tm' \<and> getAll tm' = [Undefined])"
proof -
  have h: "getRows oneTile \<le> length (arrays oneTile (grid oneTile))"
      "0 < getRows oneTile" "0 < getCols oneTile"
    by (simp_all add: oneTile_def newTileMap_def getRows_def getCols_def)
  have g: "getAll oneTile = [Item (boxAt 360 590 10 10)]"
    by (simp add: oneTile_def newTileMap_def getAll_def js_get_def notNull_def)
  have n: "getRows oneTile * getCols oneTile = 1"
    by (simp add: oneTile_def newTileMap_def getRows_def getCols_def)
  from clearAll_leaves_undefined [OF h] h g show ?thesis
    by (auto simp: n)
qed

text \<open>
  The column range of \<^verbatim>\<open>getCellsInRect\<close> is the one the rectangle asks for: a
  column is scanned exactly when it exists and the x-extent of its tiles meets
  the x-extent of the query (the tile's own edges excluded).
\<close>

lemma getCellsInRect_columns_exact:
  assumes "0 < fst (cellSize tm)"
    and "getCellCoordsInRect env tm (Some wx) ay (Some tw) ah = (c0, r0, c1, r1)"
  shows "nat (min (int (getCols tm)) (max 0 c0)) \<le> j \<and> j < nat (min (int (getCols tm)) (max 0 c1))
     \<longleftrightarrow> j < getCols tm \<and> wx < x (tileRect tm i j) + width (tileRect tm i j) \<and>
         x (tileRect tm i j) < wx + tw"
proof -
  define cw where "cw = fst (cellSize tm)"
  define x0 where "x0 = fst (startCoords tm)"
  have c0: "c0 = \<lfloor>(wx - x0) / cw\<rfloor>" and c1: "c1 = \<lceil>(wx + tw - x0) / cw\<rceil>"
    using assms(2) by (simp_all add: getCellCoordsInRect_def Let_def cw_def x0_def)
  have pos: "0 < cw" using assms(1) by (simp add: cw_def)
  have lo: "c0 \<le> int j \<longleftrightarrow> wx < x0 + of_nat j * cw + cw"
  proof -
    have "c0 \<le> int j \<longleftrightarrow> c0 < int j + 1" by linarith
    also have "\<dots> \<longleftrightarrow> (wx - x0) / cw < of_int (int j + 1)"
      unfolding c0 by (rule floor_less_iff)
    also have "\<dots> \<longleftrightarrow> wx - x0 < (of_nat j + 1) * cw"
      using pos by (simp add: pos_divide_less_eq)
    also have "\<dots> \<longleftrightarrow> wx < x0 + of_nat j * cw + cw"
      by (auto simp: algebra_simps)
    finally show ?thesis .
  qed
  have hi: "int j < c1 \<longleftrightarrow> x0 + of_nat j * cw < wx + tw"
  proof -
    have "int j < c1 \<longleftrightarrow> of_int (int j) < (wx + tw - x0) / cw"
      unfolding c1 by (rule less_ceiling_iff)
    also have "\<dots> \<longleftrightarrow> of_nat j * cw < wx + tw - x0"
      using pos by (simp add: pos_less_divide_eq)
    also have "\<dots> \<longleftrightarrow> x0 + of_nat j * cw < wx + tw"
      by (auto simp: algebra_simps)
    finally show ?thesis .
  qed
  have "nat (min (int (getCols tm)) (max 0 c0)) \<le> j \<and> j < nat (min (int (getCols tm)) (max 0 c1))
     \<longleftrightarrow> j < getCols tm \<and> c0 \<le> int j \<and> int j < c1"
    by auto
  then show ?thesis
    by (simp add: lo hi tileRect_def cw_def x0_def)
qed

text \<open>
  The row range is not: its end is computed from \<^verbatim>\<open>(y - wy + th) / cy\<close>, where
  the column end uses \<^verbatim>\<open>(wx + tw - x) / cw\<close>. Every query that starts at least
  its own height below the origin of the TileMap gets an empty row range, whatever
  the grid holds.
\<close>

lemma getCellsInRect_below_origin_empty:
  assumes "0 < snd (cellSize tm)" and "th \<le> wy - snd (startCoords tm)"
  shows "getCellsInRect env tm ax (Some wy) aw (Some th) = []"
proof -
  have "(snd (startCoords tm) - wy + th) / snd (cellSize tm) \<le> 0"
    using assms by (simp add: divide_le_0_iff)
  then have "\<lceil>(snd (startCoords tm) - wy + th) / snd (cellSize tm)\<rceil> \<le> 0"
    by (simp add: ceiling_le_iff)
  then show ?thesis
    by (simp add: getCellsInRect_def getCellCoordsInRect_def Let_def max_absorb1 split_beta)
qed

text \<open>
  Claim C2 fails on the code at this input: in the TileMap of two rows and two
  columns, the query rectangle (10, 590, 10, 10) is the rectangle of the tile in
  row 1, column 1, which \<^verbatim>\<open>getAll\<close> returns; \<^verbatim>\<open>getCellsInRect\<close> returns
  nothing, its cell range being columns 1 to 2 and rows 1 to 0.
\<close>

theorem getCellsInRect_misses_tile:
  "getCellsInRect env tilesExample (Some 10) (Some 590) (Some 10) (Some 10) = [] \<and>
   getCellCoordsInRect env tilesExample (Some 10) (Some 590) (Some 10) (Some 10) = (1, 1, 2, 0) \<and>
   getAll tilesExample = [Item (boxAt 10 580 10 10), Item (boxAt 10 590 10 10)] \<and>
   getCell tilesExample 1 1 = Item (boxAt 10 590 10 10) \<and>
   tileRect tilesExample 1 1 = boxAt 10 590 10 10 \<and>
   overlaps (tileRect tilesExample 1 1) (boxAt 10 590 10 10)"
  by (simp add: tilesExample_def newTileMap_def getCellsInRect_def getCellCoordsInRect_def
      getAll_def getCell_def getRows_def getCols_def tileRect_def js_get_def notNull_def
      boxAt_def overlaps_def overlapsX_def overlapsY_def Let_def)

section \<open>Jumping\<close>

lemma move_leftRight_keeps:
  "numJumps (fst (fst (move_leftRight cls env ks d s))) = numJumps (fst s)"
  "inAir (fst (fst (move_leftRight cls env ks d s))) = inAir (fst s)"
  "speed (fst (fst (move_leftRight cls env ks d s))) = speed (fst s)"
  "lastJump (fst (fst (move_leftRight cls env ks d s))) = lastJump (fst s)"
  "jumpKeyDown (fst (fst (move_leftRight cls env ks d s))) = jumpKeyDown (fst s)"
  "y (fst (fst (move_leftRight cls env ks d s))) = y (fst s)"
  "height (fst (fst (move_leftRight cls env ks d s))) = height (fst s)"
  "y (snd (fst (move_leftRight cls env ks d s))) = y (snd s)"
  by (simp_all add: move_leftRight_def Let_def)

lemma move_look_keeps:
  "numJumps (move_look cls ks d l a) = numJumps a"
  "inAir (move_look cls ks d l a) = inAir a"
  "speed (move_look cls ks d l a) = speed a"
  "lastJump (move_look cls ks d l a) = lastJump a"
  "jumpKeyDown (move_look cls ks d l a) = jumpKeyDown a"
  "y (move_look cls ks d l a) = y a"
  "x (move_look cls ks d l a) = x a"
  by (simp_all add: move_look_def)

lemma move_upDown_fields:
  shows "numJumps (fst (fst (move_upDown cls env ks d l r lk s))) =
      (if upGuards cls env ks d (fst s) then numJumps (fst s) + 1 else numJumps (fst s))"
    and "speed (fst (fst (move_upDown cls env ks d l r lk s))) =
      (if upGuards cls env ks d (fst s) then - JUMP_VEL cls else speed (fst s))"
    and "lastJump (fst (fst (move_upDown cls env ks d l r lk s))) =
      (if upGuards cls env ks d (fst s) then now env else lastJump (fst s))"
    and "inAir (fst (fst (move_upDown cls env ks d l r lk s))) =
      (if upGuards cls env ks d (fst s) then True else inAir (fst s))"
  by (auto simp: move_upDown_def move_jump_def upGuards_def isInAir_def Let_def)

lemma upGuards_leftRight:
  "upGuards cls env ks d (fst (fst (move_leftRight cls env ks d' s))) = upGuards cls env ks d (fst s)"
  by (simp add: upGuards_def isInAir_def move_leftRight_keeps)

lemma upGuards_lastDirection:
  "upGuards cls env ks d (a\<lparr>lastDirection := v\<rparr>) = upGuards cls env ks d a"
  by (simp add: upGuards_def isInAir_def)

lemma move_fields:
  shows "numJumps (fst (move cls env a d)) = (if jumpGuards cls env a d then numJumps a + 1 else numJumps a)"
    and "speed (fst (move cls env a d)) = (if jumpGuards cls env a d then - JUMP_VEL cls else speed a)"
    and "lastJump (fst (move cls env a d)) = (if jumpGuards cls env a d then now env else lastJump a)"
    and "inAir (fst (move cls env a d)) = (if jumpGuards cls env a d then True else inAir a)"
  by (simp_all add: move_def Let_def split_beta move_look_keeps move_upDown_fields
      move_leftRight_keeps upGuards_leftRight upGuards_lastDirection jumpGuards_def
      split: option.splits)

lemma anyIn_Nil: "\<not> anyIn search []"
  by (induction search) (simp_all add: anyIn_def)

lemma move_rejected:
  assumes "inAir b" and "MULTI_JUMP cls \<le> numJumps b" and "MULTI_JUMP cls \<noteq> - 1"
  shows "numJumps (fst (move cls env b d)) = numJumps b"
    and "speed (fst (move cls env b d)) = speed b"
    and "lastJump (fst (move cls env b d)) = lastJump b"
    and "inAir (fst (move cls env b d))"
proof -
  have "\<not> jumpGuards cls env b d"
    using assms by (simp add: jumpGuards_def upGuards_def isInAir_def split: option.splits)
  then show "numJumps (fst (move cls env b d)) = numJumps b"
    and "speed (fst (move cls env b d)) = speed b"
    and "lastJump (fst (move cls env b d)) = lastJump b"
    and "inAir (fst (move cls env b d))"
    using assms(1) by (simp_all add: move_fields)
qed

lemma moves_rejected:
  assumes "inAir b" and "MULTI_JUMP cls \<le> numJumps b" and "MULTI_JUMP cls \<noteq> - 1"
  shows "numJumps (moves cls b attempts) = numJumps b \<and>
     speed (moves cls b attempts) = speed b \<and>
     lastJump (moves cls b attempts) = lastJump b \<and> inAir (moves cls b attempts)"
  using assms
proof (induction attempts arbitrary: b)
  case Nil
  then show ?case by simp
next
  case (Cons ed attempts)
  obtain env d where ed: "ed = (env, d)" by (cases ed)
  let ?b = "fst (move cls env b d)"
  have keep: "numJumps ?b = numJumps b" "speed ?b = speed b" "lastJump ?b = lastJump b" "inAir ?b"
    using move_rejected [OF Cons.prems] by simp_all
  have "numJumps (moves cls ?b attempts) = numJumps ?b \<and>
     speed (moves cls ?b attempts) = speed ?b \<and>
     lastJump (moves cls ?b attempts) = lastJump ?b \<and> inAir (moves cls ?b attempts)"
    using Cons.prems keep by (intro Cons.IH) simp_all
  then show ?case
    by (simp add: ed keep)
qed

section \<open>Gravity\<close>

lemma move_no_direction:
  "\<not> CONTINUOUS_MOVEMENT cls \<Longrightarrow> move cls env a [] = (a, \<lparr>x = 0, y = 0\<rparr>)"
  by (simp add: move_def Let_def split: option.splits)

text \<open>
  Claim C5, amended. For an Actor in the air with vertical speed 0 that is not
  being dragged, with gravity, \<^verbatim>\<open>G_CONST = 1000\<close>, a frame of 0.1 s, no
  direction given (and no continuous movement) and the bottom edge inside the
  world, one \<^verbatim>\<open>update\<close> gives a vertical speed of 100 and a vertical
  displacement of 0: the step is taken from the speed before the increment.
\<close>

theorem gravity_tick:
  assumes "GRAVITY cls" and "G_CONST cls = 1000" and "lastDelta env = 1/10"
    and "\<not> isBeingDragged a" and "isInAir a" and "speed a = 0"
    and "\<not> CONTINUOUS_MOVEMENT cls"
    and "y a + height a \<le> world_height env \<or> \<not> STAY_IN_WORLD cls"
  shows "speed (fst (update cls env a [])) = 100 \<and>
     y (snd (update cls env a [])) = 0 \<and>
     y (fst (update cls env a [])) = y a"
  using assms
  by (auto simp: update_def update_air_def move_no_direction isInAir_def Let_def)

text \<open>Witness for C5: an Actor in the air at (100, 100) in a world of height 600.\<close>

theorem gravity_tick_witness:
  "speed (fst (update gravityClass (envAt 0 (1/10)) ((actorAt 100 100 10 10)\<lparr>inAir := True\<rparr>) [])) = 100 \<and>
   y (snd (update gravityClass (envAt 0 (1/10)) ((actorAt 100 100 10 10)\<lparr>inAir := True\<rparr>) [])) = 0 \<and>
   y (fst (update gravityClass (envAt 0 (1/10)) ((actorAt 100 100 10 10)\<lparr>inAir := True\<rparr>) [])) = 100"
  using gravity_tick [of gravityClass "envAt 0 (1/10)" "(actorAt 100 100 10 10)\<lparr>inAir := True\<rparr>"]
  by (simp add: gravityClass_def Actor_class_def envAt_def actorAt_def isInAir_def)

text \<open>Claim C5, as stated, fails at that input: the speed is 100 and the
  displacement is not 10.\<close>

theorem gravity_tick_displacement_not_10:
  "\<not> (speed (fst (update gravityClass (envAt 0 (1/10)) ((actorAt 100 100 10 10)\<lparr>inAir := True\<rparr>) [])) = 100 \<and>
      y (snd (update gravityClass (envAt 0 (1/10)) ((actorAt 100 100 10 10)\<lparr>inAir := True\<rparr>) [])) = 10)"
  by (simp add: update_def update_air_def move_def gravityClass_def Actor_class_def envAt_def
      actorAt_def isInAir_def Let_def)

section \<open>The jump counter on the ground\<close>

lemma moveOutside_keeps:
  fixes a :: Actor
  shows "inAir (fst (moveOutside a b)) = inAir a"
    and "numJumps (fst (moveOutside a b)) = numJumps a"
    and "speed (fst (moveOutside a b)) = speed a"
    and "width (fst (moveOutside a b)) = width a"
    and "height (fst (moveOutside a b)) = height a"
  by (simp_all add: moveOutside_def moveOutsideX_def moveOutsideY_def Let_def split_beta)

lemma stopFalling_fields:
  "inAir (stopFalling cls env a) = False"
  "numJumps (stopFalling cls env a) = 0"
  "speed (stopFalling cls env a) = min (speed a) 0"
  "x (stopFalling cls env a) = x a"
  by (simp_all add: stopFalling_def Let_def)

lemma startFalling_fields:
  "inAir (startFalling a) = True"
  "numJumps (startFalling a) = numJumps a"
  "speed (startFalling a) = speed a"
  "x (startFalling a) = x a" "y (startFalling a) = y a"
  "width (startFalling a) = width a" "height (startFalling a) = height a"
  by (simp_all add: startFalling_def Let_def split: option.splits)

lemma update_air_keeps:
  "inAir (fst (update_air cls env st s)) = inAir (fst s)"
  "numJumps (fst (update_air cls env st s)) = numJumps (fst s)"
  by (simp_all add: update_air_def Let_def)

lemma groundedInv_init: "groundedInv (init cls env ax ay aw ah)"
  by (simp add: groundedInv_def init_def)

lemma groundedInv_move: "groundedInv a \<Longrightarrow> groundedInv (fst (move cls env a d))"
  by (simp add: groundedInv_def move_fields)

lemma groundedInv_stopFalling: "groundedInv (stopFalling cls env a)"
  by (simp add: groundedInv_def stopFalling_fields)

lemma groundedInv_startFalling: "groundedInv (startFalling a)"
  by (simp add: groundedInv_def startFalling_fields)

lemma groundedInv_release: "groundedInv a \<Longrightarrow> groundedInv (release cls env a r)"
  by (simp add: groundedInv_def release_def split: option.splits)

lemma groundedInv_update:
  assumes "groundedInv a"
  shows "groundedInv (fst (update cls env a d))"
proof -
  obtain this1 moved1 where m: "move cls env a d = (this1, moved1)"
    by (cases "move cls env a d")
  have g1: "groundedInv this1"
    using groundedInv_move [OF assms, of cls env d] m by simp
  show ?thesis
    using assms g1
    by (simp add: update_def m Let_def split_beta groundedInv_def update_air_keeps
        stopFalling_fields)
qed

lemma collideSolidBox_keeps:
  "inAir (fst (collideSolidBox cls env a m b)) \<longrightarrow> inAir a"
  "numJumps (fst (collideSolidBox cls env a m b)) = numJumps a \<or>
   numJumps (fst (collideSolidBox cls env a m b)) = 0"
  "\<not> inAir (fst (collideSolidBox cls env a m b)) \<and> inAir a \<longrightarrow>
     numJumps (fst (collideSolidBox cls env a m b)) = 0"
  by (simp_all add: collideSolidBox_def Let_def moveOutside_keeps stopFalling_fields)

lemma groundedInv_collideSolidBox:
  "groundedInv a \<Longrightarrow> groundedInv (fst (collideSolidBox cls env a m b))"
  using collideSolidBox_keeps [of cls env a m b] by (auto simp: groundedInv_def)

lemma groundedInv_collideSolidItems:
  "groundedInv a \<Longrightarrow>
     (case collideSolidItems cls env m items (a, f, c) of
        Inl (e, a') \<Rightarrow> groundedInv a'
      | Inr (a', f', c') \<Rightarrow> groundedInv a')"
proof (induction items arbitrary: a f c)
  case Nil
  then show ?case by simp
next
  case (Cons it items)
  show ?case
  proof (cases it)
    case (Item b)
    obtain a1 f1 c1 where r: "collideSolidBox cls env a m b = (a1, f1, c1)"
      by (cases "collideSolidBox cls env a m b")
    have "groundedInv a1"
      using groundedInv_collideSolidBox [OF Cons.prems, of cls env m b] r by simp
    from Cons.IH [OF this, of "f \<and> f1" "c \<or> c1"] show ?thesis
      by (simp add: Item r)
  next
    case Null
    with Cons.prems show ?thesis by simp
  next
    case Undefined
    with Cons.prems show ?thesis by simp
  qed
qed

lemma groundedInv_collideSolid:
  assumes "groundedInv a"
  shows "case collideSolid cls env a m ob of
      Inl (e, a') \<Rightarrow> groundedInv a'
    | Inr (a', c) \<Rightarrow> groundedInv a'"
proof -
  define f0 where
    "f0 = (GRAVITY cls \<and> (y a + height a \<noteq> world_height env \<or> \<not> STAY_IN_WORLD cls))"
  note items = groundedInv_collideSolidItems [OF assms, of cls env m "items_of ob" f0 False]
  show ?thesis
  proof (cases ob)
    case (IsBox b)
    obtain a1 f1 c1 where r: "collideSolidBox cls env a m b = (a1, f1, c1)"
      by (cases "collideSolidBox cls env a m b")
    have "groundedInv a1"
      using groundedInv_collideSolidBox [OF assms, of cls env m b] r by simp
    then show ?thesis
      using IsBox r by (simp add: collideSolid_def Let_def groundedInv_startFalling)
  next
    case (IsCollection bs)
    with items show ?thesis
      unfolding collideSolid_def Let_def f0_def
      by (auto simp: groundedInv_startFalling split: sum.splits)
  next
    case (IsTileMap tm)
    with items show ?thesis
      unfolding collideSolid_def Let_def f0_def
      by (auto simp: groundedInv_startFalling split: sum.splits)
  qed
qed

lemma groundedInv_collideSolid_returns:
  "groundedInv a \<Longrightarrow> collideSolid cls env a m ob = Inr (a', c) \<Longrightarrow> groundedInv a'"
  using groundedInv_collideSolid [of a cls env m ob] by simp

lemma groundedInv_collideSolid_throws:
  "groundedInv a \<Longrightarrow> collideSolid cls env a m ob = Inl (e, a') \<Longrightarrow> groundedInv a'"
  using groundedInv_collideSolid [of a cls env m ob] by simp

lemma isMoveAllowedBox_keeps:
  "inAir (fst (snd (isMoveAllowedBox a m b fix))) = inAir a"
  "numJumps (fst (snd (isMoveAllowedBox a m b fix))) = numJumps a"
  by (simp_all add: isMoveAllowedBox_def Let_def)

lemma isMoveAllowedItems_keeps:
  "inAir (fst (snd (isMoveAllowedItems a m items fix))) = inAir a \<and>
   numJumps (fst (snd (isMoveAllowedItems a m items fix))) = numJumps a"
proof (induction items arbitrary: a m)
  case Nil
  then show ?case by simp
next
  case (Cons it items)
  show ?case
  proof (cases it)
    case (Item b)
    obtain ok a1 m1 where r: "isMoveAllowedBox a m b fix = (ok, a1, m1)"
      by (cases "isMoveAllowedBox a m b fix")
    have "inAir a1 = inAir a" "numJumps a1 = numJumps a"
      using isMoveAllowedBox_keeps [of a m b "fix"] r by simp_all
    then show ?thesis
      using Cons.IH [of a1 m1] Item r by simp
  qed (simp_all add: Cons.IH)
qed

lemma groundedInv_isMoveAllowed:
  "groundedInv a \<Longrightarrow> groundedInv (fst (snd (isMoveAllowed a m ob fix)))"
  using isMoveAllowedItems_keeps [of a m "items_of ob" "fix"] isMoveAllowedBox_keeps [of a m _ "fix"]
  by (cases ob) (simp_all add: groundedInv_def isMoveAllowed_def)

lemma groundedInv_reachable: "reachable cls a \<Longrightarrow> groundedInv a"
proof (induction rule: reachable.induct)
  case (reach_moveOutside a other)
  then show ?case by (simp add: groundedInv_def moveOutside_keeps)
next
  case (reach_drag a dragged)
  then show ?case by (simp add: groundedInv_def)
qed (auto intro: groundedInv_init groundedInv_move groundedInv_update groundedInv_startFalling
    groundedInv_stopFalling groundedInv_collideSolid_returns groundedInv_collideSolid_throws
    groundedInv_release groundedInv_isMoveAllowed)

text \<open>
  Claim C9. The predicate "not in the air implies no jumps counted" holds of a
  new Actor and is preserved by \<^verbatim>\<open>move\<close>, \<^verbatim>\<open>update\<close>, \<^verbatim>\<open>startFalling\<close>,
  \<^verbatim>\<open>stopFalling\<close>, \<^verbatim>\<open>release\<close> and \<^verbatim>\<open>collideSolid\<close>, whether it returns
  or throws; so it holds in every reachable state.
\<close>

theorem grounded_numJumps_invariant:
  fixes moved :: Coords
  shows "groundedInv (init cls env ax ay aw ah) \<and>
     (groundedInv a \<longrightarrow>
        groundedInv (fst (move cls env a direction)) \<and>
        groundedInv (fst (update cls env a direction)) \<and>
        groundedInv (startFalling a) \<and>
        groundedInv (stopFalling cls env a) \<and>
        groundedInv (release cls env a direction) \<and>
        (\<forall>a' collided.
           collideSolid cls env a moved collideWith = Inr (a', collided) \<longrightarrow> groundedInv a') \<and>
        (\<forall>e a'.
           collideSolid cls env a moved collideWith = Inl (e, a') \<longrightarrow> groundedInv a')) \<and>
     (reachable cls a \<longrightarrow> \<not> inAir a \<longrightarrow> numJumps a = 0)"
  using groundedInv_reachable [of cls a]
    groundedInv_collideSolid_returns [of a cls env moved collideWith]
    groundedInv_collideSolid_throws [of a cls env moved collideWith]
  by (auto simp: groundedInv_init groundedInv_move groundedInv_update groundedInv_startFalling
      groundedInv_stopFalling groundedInv_release groundedInv_def [of a])

text \<open>Witness for C9: a new Actor at (100, 100, 10, 10), on the ground with no
  jumps; a jump takes it into the air with one jump counted, and
  \<^verbatim>\<open>collideSolid\<close> against a Box half a unit below it leaves it as it is.\<close>

theorem grounded_numJumps_invariant_witness:
  "groundedInv (actorAt 100 100 10 10) \<and>
   reachable floorClass (init floorClass (envAt 0 (1/100)) (Some 100) (Some 100) (Some 10) (Some 10)) \<and>
   init floorClass (envAt 0 (1/100)) (Some 100) (Some 100) (Some 10) (Some 10) = actorAt 100 100 10 10 \<and>
   groundedInv (fst (move floorClass (envAt 1000 (1/100)) (actorAt 100 100 10 10) [''up''])) \<and>
   numJumps (fst (move floorClass (envAt 1000 (1/100)) (actorAt 100 100 10 10) [''up''])) = 1 \<and>
   collideSolid floorClass (envAt 1000 (1/100)) (actorAt 100 100 10 10) \<lparr>x = 0, y = 0\<rparr>
      (IsBox (boxAt 100 (221/2) 10 10)) = Inr (actorAt 100 100 10 10, False) \<and>
   \<not> inAir (actorAt 100 100 10 10) \<and> numJumps (actorAt 100 100 10 10) = 0"
proof -
  have i: "init floorClass (envAt 0 (1/100)) (Some 100) (Some 100) (Some 10) (Some 10)
      = actorAt 100 100 10 10"
    by (simp add: init_def actorAt_def js_or_def)
  have r: "reachable floorClass (actorAt 100 100 10 10)"
    using reach_init [of floorClass "envAt 0 (1/100)" "Some 100" "Some 100" "Some 10" "Some 10"]
    by (simp add: i)
  have g: "groundedInv (actorAt 100 100 10 10)"
    by (simp add: groundedInv_def actorAt_def)
  have n: "numJumps (fst (move floorClass (envAt 1000 (1/100)) (actorAt 100 100 10 10) [''up''])) = 1"
    by (simp add: move_def move_leftRight_def move_upDown_def move_jump_def move_look_def
        floorClass_def Actor_class_def envAt_def actorAt_def keysExample_def anyIn_def
        isInAir_def Let_def)
  have c: "collideSolid floorClass (envAt 1000 (1/100)) (actorAt 100 100 10 10) \<lparr>x = 0, y = 0\<rparr>
      (IsBox (boxAt 100 (221/2) 10 10)) = Inr (actorAt 100 100 10 10, False)"
    by (simp add: collideSolid_def collideSolidBox_def standingOn_def overlaps_def overlapsX_def
        overlapsY_def almostEqual_def stopFalling_def floorClass_def Actor_class_def envAt_def
        actorAt_def boxAt_def Let_def)
  have e: "\<not> inAir (actorAt 100 100 10 10)" "numJumps (actorAt 100 100 10 10) = 0"
    by (simp_all add: actorAt_def)
  from e grounded_numJumps_invariant [of floorClass "envAt 1000 (1/100)" "Some 100" "Some 100"
      "Some 10" "Some 10" "actorAt 100 100 10 10" "[''up'']" "\<lparr>x = 0, y = 0\<rparr>"
      "IsBox (boxAt 100 (221/2) 10 10)"] g r i n c
  show ?thesis
    by simp
qed

section \<open>The jump budget and the jump delay\<close>

lemma update_numJumps:
  "numJumps (fst (update cls env a d)) = numJumps (fst (move cls env a d)) \<or>
   numJumps (fst (update cls env a d)) = 0 \<or>
   numJumps (fst (update cls env a d)) = numJumps a"
proof -
  obtain this1 moved1 where m: "move cls env a d = (this1, moved1)"
    by (cases "move cls env a d")
  show ?thesis
    by (simp add: update_def m Let_def split_beta update_air_keeps stopFalling_fields)
qed

lemma collideSolidItems_numJumps:
  "numJumps a \<le> n \<Longrightarrow> 0 \<le> n \<Longrightarrow>
     (case collideSolidItems cls env m items (a, f, c) of
        Inl (e, a') \<Rightarrow> numJumps a' \<le> n
      | Inr (a', f', c') \<Rightarrow> numJumps a' \<le> n)"
proof (induction items arbitrary: a f c)
  case Nil
  then show ?case by simp
next
  case (Cons it items)
  show ?case
  proof (cases it)
    case (Item b)
    obtain a1 f1 c1 where r: "collideSolidBox cls env a m b = (a1, f1, c1)"
      by (cases "collideSolidBox cls env a m b")
    have "numJumps a1 \<le> n"
      using collideSolidBox_keeps(2) [of cls env a m b] r Cons.prems by auto
    from Cons.IH [OF this Cons.prems(2), of "f \<and> f1" "c \<or> c1"] show ?thesis
      by (simp add: Item r)
  next
    case Null
    with Cons.prems show ?thesis by simp
  next
    case Undefined
    with Cons.prems show ?thesis by simp
  qed
qed

lemma collideSolid_numJumps:
  assumes "numJumps a \<le> n" and "0 \<le> n"
  shows "case collideSolid cls env a m ob of
      Inl (e, a') \<Rightarrow> numJumps a' \<le> n
    | Inr (a', c) \<Rightarrow> numJumps a' \<le> n"
proof -
  define f0 where
    "f0 = (GRAVITY cls \<and> (y a + height a \<noteq> world_height env \<or> \<not> STAY_IN_WORLD cls))"
  note items = collideSolidItems_numJumps [OF assms, of cls env m "items_of ob" f0 False]
  show ?thesis
  proof (cases ob)
    case (IsBox b)
    obtain a1 f1 c1 where r: "collideSolidBox cls env a m b = (a1, f1, c1)"
      by (cases "collideSolidBox cls env a m b")
    have "numJumps a1 \<le> n"
      using collideSolidBox_keeps(2) [of cls env a m b] r assms by auto
    then show ?thesis
      using IsBox r by (simp add: collideSolid_def Let_def startFalling_fields)
  next
    case (IsCollection bs)
    with items show ?thesis
      unfolding collideSolid_def Let_def f0_def
      by (auto simp: startFalling_fields split: sum.splits)
  next
    case (IsTileMap tm)
    with items show ?thesis
      unfolding collideSolid_def Let_def f0_def
      by (auto simp: startFalling_fields split: sum.splits)
  qed
qed

lemma move_numJumps_bound:
  assumes "groundedInv a" and "numJumps a \<le> 1" and "MULTI_JUMP cls = 1"
  shows "numJumps (fst (move cls env a d)) \<le> 1"
proof (cases "jumpGuards cls env a d")
  case True
  then have "\<not> inAir a \<or> numJumps a < 1"
    using assms(3) by (auto simp: jumpGuards_def upGuards_def isInAir_def split: option.splits)
  then have "numJumps a \<le> 0"
    using assms(1) by (auto simp: groundedInv_def)
  then show ?thesis
    using True by (simp add: move_fields)
next
  case False
  then show ?thesis
    using assms(2) by (simp add: move_fields)
qed

lemma reachable_numJumps_bound:
  assumes "reachable cls a" and "MULTI_JUMP cls = 1"
  shows "numJumps a \<le> 1"
  using assms(1)
proof (induction rule: reachable.induct)
  case (reach_init env ax ay aw ah)
  then show ?case by (simp add: init_def)
next
  case (reach_move a env direction)
  then show ?case
    by (intro move_numJumps_bound groundedInv_reachable assms(2))
next
  case (reach_update a env direction)
  then have "numJumps (fst (move cls env a direction)) \<le> 1"
    by (intro move_numJumps_bound groundedInv_reachable assms(2))
  with reach_update show ?case
    using update_numJumps [of cls env a direction] by auto
next
  case (reach_startFalling a)
  then show ?case by (simp add: startFalling_fields)
next
  case (reach_stopFalling a env)
  then show ?case by (simp add: stopFalling_fields)
next
  case (reach_collideSolid a env moved collideWith a' collided)
  then show ?case
    using collideSolid_numJumps [of a 1 cls env moved collideWith] by simp
next
  case (reach_collideSolid_throws a env moved collideWith e a')
  then show ?case
    using collideSolid_numJumps [of a 1 cls env moved collideWith] by simp
next
  case (reach_release a env released)
  then show ?case by (simp add: release_def split: option.splits)
next
  case (reach_moveOutside a other)
  then show ?case by (simp add: moveOutside_keeps)
next
  case (reach_isMoveAllowed a moved collideWith fx)
  then show ?case
    using isMoveAllowedItems_keeps [of a moved "items_of collideWith" fx]
      isMoveAllowedBox_keeps [of a moved _ fx]
    by (cases collideWith) (simp_all add: isMoveAllowed_def)
next
  case (reach_drag a dragged)
  then show ?case by simp
qed

text \<open>
  Claim C4, amended. With \<^verbatim>\<open>MULTI_JUMP = 1\<close> and gravity, a budget of 1 allows
  one jump before a landing: from the ground (no jumps counted), an attempt
  that passes the world bound, the delay and the release condition sets the
  vertical speed to \<^verbatim>\<open>-JUMP_VEL\<close> and \<^verbatim>\<open>numJumps\<close> to 1; after it, every
  sequence of further calls of \<^verbatim>\<open>move\<close>, whatever their time and direction,
  leaves \<^verbatim>\<open>numJumps\<close> at 1 and the speed and \<^verbatim>\<open>lastJump\<close> as the first jump
  set them. In no reachable state of an Actor of such a class does \<^verbatim>\<open>numJumps\<close>
  exceed 1.
\<close>

theorem multi_jump_one_allows_one_jump:
  assumes "GRAVITY cls" and "MULTI_JUMP cls = 1"
    and "\<not> inAir a" and "numJumps a = 0"
    and "keys env = Some ks" and "anyIn (keys_up ks) d"
    and "y a - MOVEAMOUNT cls * lastDelta env \<ge> 0 \<or> \<not> STAY_IN_WORLD cls"
    and "now env - lastJump a > JUMP_DELAY cls"
    and "\<not> JUMP_RELEASE cls \<or> \<not> jumpKeyDown a"
  shows "speed (fst (move cls env a d)) = - JUMP_VEL cls \<and>
     numJumps (fst (move cls env a d)) = 1 \<and>
     inAir (fst (move cls env a d)) \<and>
     (\<forall>attempts.
        numJumps (moves cls (fst (move cls env a d)) attempts) = 1 \<and>
        speed (moves cls (fst (move cls env a d)) attempts) = - JUMP_VEL cls \<and>
        lastJump (moves cls (fst (move cls env a d)) attempts) = now env \<and>
        inAir (moves cls (fst (move cls env a d)) attempts)) \<and>
     (\<forall>b. reachable cls b \<longrightarrow> numJumps b \<le> 1)"
proof -
  let ?a1 = "fst (move cls env a d)"
  have "d \<noteq> []"
    using assms(6) by (auto simp: anyIn_Nil)
  then have g: "jumpGuards cls env a d"
    using assms by (simp add: jumpGuards_def upGuards_def isInAir_def)
  then have first: "speed ?a1 = - JUMP_VEL cls" "numJumps ?a1 = 1" "inAir ?a1" "lastJump ?a1 = now env"
    using assms(4) by (simp_all add: move_fields)
  have "numJumps (moves cls ?a1 attempts) = numJumps ?a1 \<and>
     speed (moves cls ?a1 attempts) = speed ?a1 \<and>
     lastJump (moves cls ?a1 attempts) = lastJump ?a1 \<and> inAir (moves cls ?a1 attempts)"
    for attempts
    using first assms(2) by (intro moves_rejected) simp_all
  then show ?thesis
    using first reachable_numJumps_bound [OF _ assms(2)] by simp
qed

text \<open>Witness for C4: an Actor on the ground at (100, 100) jumps at time 1000; the
  attempts at 2000 and 3000 leave the count at 1.\<close>

theorem multi_jump_one_allows_one_jump_witness:
  "numJumps (fst (move jumperClass (envAt 1000 (1/10)) (actorAt 100 100 10 10) [''up''])) = 1 \<and>
   speed (fst (move jumperClass (envAt 1000 (1/10)) (actorAt 100 100 10 10) [''up''])) = - 800 \<and>
   numJumps (moves jumperClass
      (fst (move jumperClass (envAt 1000 (1/10)) (actorAt 100 100 10 10) [''up'']))
      [(envAt 2000 (1/10), [''up'']), (envAt 3000 (1/10), [''up''])]) = 1"
proof -
  have "speed (fst (move jumperClass (envAt 1000 (1/10)) (actorAt 100 100 10 10) [''up'']))
      = - JUMP_VEL jumperClass \<and>
     numJumps (fst (move jumperClass (envAt 1000 (1/10)) (actorAt 100 100 10 10) [''up''])) = 1 \<and>
     inAir (fst (move jumperClass (envAt 1000 (1/10)) (actorAt 100 100 10 10) [''up''])) \<and>
     (\<forall>attempts.
        numJumps (moves jumperClass
          (fst (move jumperClass (envAt 1000 (1/10)) (actorAt 100 100 10 10) [''up''])) attempts) = 1 \<and>
        speed (moves jumperClass
          (fst (move jumperClass (envAt 1000 (1/10)) (actorAt 100 100 10 10) [''up''])) attempts)
          = - JUMP_VEL jumperClass \<and>
        lastJump (moves jumperClass
          (fst (move jumperClass (envAt 1000 (1/10)) (actorAt 100 100 10 10) [''up''])) attempts)
          = now (envAt 1000 (1/10)) \<and>
        inAir (moves jumperClass
          (fst (move jumperClass (envAt 1000 (1/10)) (actorAt 100 100 10 10) [''up''])) attempts)) \<and>
     (\<forall>b. reachable jumperClass b \<longrightarrow> numJumps b \<le> 1)"
    by (rule multi_jump_one_allows_one_jump [where ks = keysExample])
      (simp_all add: jumperClass_def Actor_class_def envAt_def actorAt_def keysExample_def anyIn_def)
  moreover have "JUMP_VEL jumperClass = 800"
    by (simp add: jumperClass_def Actor_class_def)
  ultimately show ?thesis
    by (simp del: moves.simps)
qed

text \<open>
  Claim C4, as stated, fails: after a first jump at time 1000 and the gravity of
  that frame (speed -650), a second attempt at time 2000 (in the air, 1000 ms
  after the first, no release required, 180 below the top of the world) does
  not set the speed to \<^verbatim>\<open>-JUMP_VEL\<close> and leaves \<^verbatim>\<open>numJumps\<close> at 1.
\<close>

theorem multi_jump_one_second_attempt_rejected:
  "inAir (fst (update jumperClass (envAt 1000 (1/10)) (actorAt 100 300 10 10) [''up''])) \<and>
   numJumps (fst (update jumperClass (envAt 1000 (1/10)) (actorAt 100 300 10 10) [''up''])) = 1 \<and>
   speed (fst (update jumperClass (envAt 1000 (1/10)) (actorAt 100 300 10 10) [''up''])) = - 650 \<and>
   JUMP_DELAY jumperClass < now (envAt 2000 (1/10))
     - lastJump (fst (update jumperClass (envAt 1000 (1/10)) (actorAt 100 300 10 10) [''up''])) \<and>
   \<not> JUMP_RELEASE jumperClass \<and>
   0 \<le> y (fst (update jumperClass (envAt 1000 (1/10)) (actorAt 100 300 10 10) [''up'']))
     - MOVEAMOUNT jumperClass * lastDelta (envAt 2000 (1/10)) \<and>
   speed (fst (move jumperClass (envAt 2000 (1/10))
      (fst (update jumperClass (envAt 1000 (1/10)) (actorAt 100 300 10 10) [''up''])) [''up'']))
     \<noteq> - JUMP_VEL jumperClass \<and>
   numJumps (fst (move jumperClass (envAt 2000 (1/10))
      (fst (update jumperClass (envAt 1000 (1/10)) (actorAt 100 300 10 10) [''up''])) [''up''])) = 1"
proof -
  have first: "fst (update jumperClass (envAt 1000 (1/10)) (actorAt 100 300 10 10) [''up''])
      = (actorAt 100 220 10 10)\<lparr>speed := - 650, lastJump := 1000, lastDirection := [''up''],
          jumpKeyDown := True, numJumps := 1, inAir := True\<rparr>"
    by (simp add: update_def update_air_def move_def move_leftRight_def move_upDown_def
        move_jump_def move_look_def jumperClass_def Actor_class_def envAt_def actorAt_def
        keysExample_def anyIn_def isInAir_def Let_def)
  show ?thesis
    unfolding first
    by (simp add: move_def move_leftRight_def move_upDown_def move_jump_def move_look_def
        jumperClass_def Actor_class_def envAt_def actorAt_def keysExample_def anyIn_def
        isInAir_def Let_def)
qed




section \<open>Landing in collideSolid\<close>







lemma collideSolidItems_append:
  "collideSolidItems cls env m (xs @ ys) s =
     (case collideSolidItems cls env m xs s of
        Inl e \<Rightarrow> Inl e
      | Inr s1 \<Rightarrow> collideSolidItems cls env m ys s1)"
proof (induction xs arbitrary: s)
  case Nil
  show ?case by simp
next
  case (Cons it xs)
  obtain a f c where s: "s = (a, f, c)"
    by (cases s)
  show ?case
    by (cases it) (simp_all add: s Cons.IH split: prod.splits)
qed

lemma collideSolidItems_flags:
  "collideSolidItems cls env m items (a, f, c) = Inr (a', f', c') \<Longrightarrow>
     \<exists>F C. f' = (f \<and> F) \<and> c' = (c \<or> C) \<and>
       (\<forall>g d. collideSolidItems cls env m items (a, g, d) = Inr (a', g \<and> F, d \<or> C))"
proof (induction items arbitrary: a f c)
  case Nil
  then show ?case
    by (intro exI [of _ True] exI [of _ False]) simp
next
  case (Cons it items)
  show ?case
  proof (cases it)
    case (Item b)
    obtain a1 f1 c1 where r: "collideSolidBox cls env a m b = (a1, f1, c1)"
      by (cases "collideSolidBox cls env a m b")
    with Cons.prems Item
    have "collideSolidItems cls env m items (a1, f \<and> f1, c \<or> c1) = Inr (a', f', c')"
      by simp
    from Cons.IH [OF this] obtain F C where
      fc: "f' = ((f \<and> f1) \<and> F)" "c' = ((c \<or> c1) \<or> C)"
      and all: "\<And>g d. collideSolidItems cls env m items (a1, g, d) = Inr (a', g \<and> F, d \<or> C)"
      by blast
    show ?thesis
      by (intro exI [of _ "f1 \<and> F"] exI [of _ "c1 \<or> C"])
        (simp add: Item r fc all conj_assoc disj_assoc)
  next
    case Null
    with Cons.prems show ?thesis by simp
  next
    case Undefined
    with Cons.prems show ?thesis by simp
  qed
qed





text \<open>When \<^verbatim>\<open>collideSolid\<close> returns false, no item overlapped the Actor at its
  turn, whichever item is singled out.\<close>

lemma collideSolid_quiet:
  fixes moved :: Coords
  assumes "collideSolid cls env a moved collideWith = Inr (a', False)"
    and "items_of collideWith = earlier @ Item b # later"
  shows "\<not> collidesAmong cls env moved later (afterItems cls env moved (earlier @ [Item b]) a)"
proof (cases "later = []")
  case True
  then show ?thesis
    by (simp add: collidesAmong_def)
next
  case False
  then have "\<forall>b0. collideWith \<noteq> IsBox b0"
    using assms(2) by (auto simp: items_of_def Cons_eq_append_conv)
  with assms obtain f0 an fn where
    run: "collideSolidItems cls env moved (earlier @ Item b # later) (a, f0, False)
        = Inr (an, fn, False)"
    by (cases collideWith) (auto simp: collideSolid_def Let_def split: sum.splits)
  then obtain ap fp cp where
    r1: "collideSolidItems cls env moved earlier (a, f0, False) = Inr (ap, fp, cp)"
    and r2: "collideSolidItems cls env moved (Item b # later) (ap, fp, cp) = Inr (an, fn, False)"
    by (auto simp: collideSolidItems_append split: sum.splits)
  obtain ak fb cb where box: "collideSolidBox cls env ap moved b = (ak, fb, cb)"
    by (cases "collideSolidBox cls env ap moved b")
  from r2 box
  have r3: "collideSolidItems cls env moved later (ak, fp \<and> fb, cp \<or> cb) = Inr (an, fn, False)"
    by simp
  from collideSolidItems_flags [OF r1] obtain F1 C1 where
    e1: "\<And>g d. collideSolidItems cls env moved earlier (a, g, d) = Inr (ap, g \<and> F1, d \<or> C1)"
    by blast
  from collideSolidItems_flags [OF r3] obtain F3 C3 where
    c3: "False = ((cp \<or> cb) \<or> C3)"
    and e3: "\<And>g d. collideSolidItems cls env moved later (ak, g, d) = Inr (an, g \<and> F3, d \<or> C3)"
    by blast
  have "afterItems cls env moved (earlier @ [Item b]) a = ak"
    by (simp add: afterItems_def collideSolidItems_append e1 box)
  then show ?thesis
    using c3 by (simp add: collidesAmong_def e3)
qed










section \<open>isMoveAllowed without fix\<close>

lemma isMoveAllowedBox_no_fix:
  "snd (isMoveAllowedBox this moved b False) = (this, moved)"
  by (simp add: isMoveAllowedBox_def)

lemma isMoveAllowedItems_no_fix:
  "snd (isMoveAllowedItems this moved items False) = (this, moved)"
proof (induction items)
  case Nil
  then show ?case by simp
next
  case (Cons it items)
  show ?case
  proof (cases it)
    case (Item b)
    with Cons.IH isMoveAllowedBox_no_fix [of this moved b] show ?thesis
      by (cases "isMoveAllowedBox this moved b False") auto
  qed (simp_all add: Cons.IH)
qed

text \<open>
  Claim C8. For every Actor, displacement and obstacle (a Box, a Collection or a
  TileMap), \<^verbatim>\<open>isMoveAllowed\<close> with \<^verbatim>\<open>fix\<close> false returns its boolean and
  leaves the Actor (its position and everything else) and the \<^verbatim>\<open>moved\<close>
  object as they were.
\<close>

theorem isMoveAllowed_no_fix_changes_nothing:
  "snd (isMoveAllowed this moved collideWith False) = (this, moved)"
  by (cases collideWith)
    (simp_all add: isMoveAllowed_def isMoveAllowedBox_no_fix isMoveAllowedItems_no_fix)

text \<open>Witness for C8: an Actor that moved 40 to the right across a Box. Without
  \<^verbatim>\<open>fix\<close> the move is refused and nothing changes; with \<^verbatim>\<open>fix\<close> the Actor
  is put flush against the Box.\<close>

theorem isMoveAllowed_no_fix_changes_nothing_witness:
  "isMoveAllowed (actorAt 30 0 10 10) \<lparr>x = 40, y = 0\<rparr> (IsBox (boxAt 10 0 10 10)) False
     = (False, actorAt 30 0 10 10, \<lparr>x = 40, y = 0\<rparr>) \<and>
   isMoveAllowed (actorAt 30 0 10 10) \<lparr>x = 40, y = 0\<rparr> (IsBox (boxAt 10 0 10 10)) True
     = (False, actorAt 0 0 10 10, \<lparr>x = - 30, y = 0\<rparr>)"
  using isMoveAllowed_no_fix_changes_nothing [of "actorAt 30 0 10 10" "\<lparr>x = 40, y = 0\<rparr>"
      "IsBox (boxAt 10 0 10 10)"]
  by (simp add: isMoveAllowed_def isMoveAllowedBox_def actorAt_def boxAt_def Let_def)

end
